theory Spec2Isabelle
  imports Complex_Main
begin

section \<open>Python values, strings and errors\<close>

text \<open>
  The three scripts (\<^verbatim>\<open>chunkify.py\<close>, \<^verbatim>\<open>step1_email_mobile_identifier_child_profiles.py\<close>,
  \<^verbatim>\<open>step2_email_identifier_winner_profile.py\<close>) are embedded as HOL functions.
  A Python \<open>str\<close> is a \<open>string\<close>, each \<open>char\<close> standing for the code point of the same
  number (0 to 255); Python's \<open>None\<close> is \<open>None\<close> of an option type or \<open>JNull\<close> inside a
  JSON value, a \<open>dict\<close> is an association list in insertion order.
  Exceptions that the scripts do not catch are values of \<open>py_error\<close>.
\<close>

datatype py_error =
    AttributeError
  | KeyError
  | IndexError
  | TypeError
  | ValueError
  | StopIteration
  | FileNotFoundError

text \<open>
  An effectful function returns what it did to the world together with how it ended:
  with a value, with an uncaught exception, or cut off because the bound on the depth of
  retries and resends (the fuel) was used up before it ended.
\<close>

datatype 'a outcome = Return 'a | Raise py_error | Out_Of_Fuel

datatype json =
    JNull
  | JBool bool
  | JNum int
  | JStr string
  | JArr "json list"
  | JObj "(string \<times> json) list"

type_synonym dict = "(string \<times> json) list"

text \<open>\<^verbatim>\<open>d[k] = v\<close>: an existing key keeps its place, a new key goes last.\<close>

fun dict_set :: "('k \<times> 'v) list \<Rightarrow> 'k \<Rightarrow> 'v \<Rightarrow> ('k \<times> 'v) list" where
  "dict_set [] k v = [(k, v)]"
| "dict_set ((k', v') # kvs) k v =
     (if k' = k then (k, v) # kvs else (k', v') # dict_set kvs k v)"

text \<open>\<^verbatim>\<open>d[key]\<close> on a decoded JSON value with a string key.\<close>

fun subscript :: "json \<Rightarrow> string \<Rightarrow> py_error + json" where
  "subscript (JObj d) k = (case map_of d k of None \<Rightarrow> Inl KeyError | Some v \<Rightarrow> Inr v)"
| "subscript _ k = Inl TypeError"

text \<open>
  The characters \<^verbatim>\<open>str.strip()\<close> removes, which are those of \<^verbatim>\<open>str.isspace\<close>: among the
  code points 0 to 255 they are tab, newline, vertical tab, form feed, carriage return
  (9 to 13), the four separators 0x1c to 0x1f, the space, the next-line control U+0085
  and the no-break space U+00A0. The whitespace beyond U+00FF (U+1680, U+2000 to U+200A,
  U+2028, U+2029, U+202F, U+205F, U+3000) has no \<open>char\<close>: a string holding such a code
  point is outside the model.
\<close>

definition is_space :: "char \<Rightarrow> bool" where
  "is_space c = (of_char c \<in> {9, 10, 11, 12, 13, 28, 29, 30, 31, 32, 133, 160 :: nat})"

text \<open>\<^verbatim>\<open>s.strip(chars)\<close> with the set of characters as a predicate, and \<^verbatim>\<open>s.strip()\<close>.\<close>

definition strip_chars :: "(char \<Rightarrow> bool) \<Rightarrow> string \<Rightarrow> string" where
  "strip_chars p s = rev (dropWhile p (rev (dropWhile p s)))"

definition strip :: "string \<Rightarrow> string" where
  "strip s = strip_chars is_space s"

text \<open>\<^verbatim>\<open>x or None\<close> on a string: the empty string is falsy.\<close>

definition or_None :: "string \<Rightarrow> string option" where
  "or_None s = (if s = [] then None else Some s)"

text \<open>\<^verbatim>\<open>x or ""\<close> on an optional string.\<close>

definition or_empty :: "string option \<Rightarrow> string" where
  "or_empty x = (case x of None \<Rightarrow> [] | Some s \<Rightarrow> s)"

text \<open>\<^verbatim>\<open>str(n)\<close> on integers.\<close>

fun str_nat :: "nat \<Rightarrow> string" where
  "str_nat n =
     (if n < 10 then [''0123456789'' ! n]
      else str_nat (n div 10) @ [''0123456789'' ! (n mod 10)])"

declare str_nat.simps [simp del]

definition str_int :: "int \<Rightarrow> string" where
  "str_int i = (if i < 0 then CHR ''-'' # str_nat (nat (- i)) else str_nat (nat i))"

fun startswith :: "string \<Rightarrow> string \<Rightarrow> bool" where
  "startswith s [] = True"
| "startswith [] (p # ps) = False"
| "startswith (c # s) (p # ps) = (c = p \<and> startswith s ps)"

section \<open>The world: the HTTP endpoint, the clock, the log and the files\<close>

text \<open>
  \<^verbatim>\<open>requests.post\<close> either returns a response or raises a
  \<^verbatim>\<open>requests.exceptions.RequestException\<close>, whose \<^verbatim>\<open>str(e)\<close> is kept.
  A response has its status code, its text, and what \<^verbatim>\<open>resp.json()\<close> makes of the
  text: \<open>Inr v\<close> the decoded value, \<open>Inl e\<close> when the text is not JSON, where
  \<^verbatim>\<open>resp.json()\<close> raises \<^verbatim>\<open>requests.exceptions.JSONDecodeError\<close>, itself a
  \<^verbatim>\<open>RequestException\<close>, with \<^verbatim>\<open>str(e) = e\<close>.
\<close>

record response =
  status_code :: int
  resp_text :: string
  resp_json :: "string + json"

record request =
  req_url :: string
  req_headers :: "(string \<times> string) list"
  req_auth :: "(string option \<times> string option) option"
  req_json :: json
  req_timeout :: "rat option"

datatype http_result = Response response | RequestException string

text \<open>
  The endpoint is any function of the number of POSTs issued before and of the request:
  every sequence of responses and failures is one such function.
\<close>

type_synonym network = "nat \<Rightarrow> request \<Rightarrow> http_result"

datatype log_level = WARNING | ERROR

text \<open>
  Log records at warning and error level, with the values their format strings insert:
  \<^item> \<open>Row_Skipped row_num msg\<close>: \<^verbatim>\<open>f"Row {row_num}: {msg}"\<close> (step 1);
  \<^item> \<open>No_Files_Found dir\<close>: \<^verbatim>\<open>f"No files found in {CHUNKS_DIR}"\<close> (step 1);
  \<^item> \<open>Attempt_Failed n e\<close>: \<^verbatim>\<open>f"Attempt {attempt + 1} failed: {str(e)}"\<close> (step 2);
  \<^item> \<open>Batch_Failed retries e\<close>:
    \<^verbatim>\<open>f"Batch failed permanently after {retries} attempts: {str(e)}"\<close> (step 2);
  \<^item> \<open>File_Failed path e\<close>: \<^verbatim>\<open>f"Failed to process file {file_path}: {str(e)}"\<close> (step 2).
  Records at info level, the log files and the timestamps are not part of the model.
\<close>

datatype log_record =
    Row_Skipped nat string
  | No_Files_Found string
  | Attempt_Failed nat string
  | Batch_Failed nat string
  | File_Failed string py_error

datatype event =
    Post request
  | Sleep rat
  | Log log_level log_record

text \<open>A CSV file is the list of its rows, each the list of its cells.\<close>

type_synonym table = "string list list"

record world =
  trace :: "event list"
  files :: "string \<Rightarrow> table option"

fun is_Post :: "event \<Rightarrow> bool" where
  "is_Post (Post r) = True"
| "is_Post _ = False"

definition posts :: "world \<Rightarrow> event list" where
  "posts w = filter is_Post (trace w)"

definition post_count :: "world \<Rightarrow> nat" where
  "post_count w = length (posts w)"

definition emit :: "event \<Rightarrow> world \<Rightarrow> world" where
  "emit e w = w\<lparr>trace := trace w @ [e]\<rparr>"

definition sleep :: "rat \<Rightarrow> world \<Rightarrow> world" where
  "sleep d w = emit (Sleep d) w"

definition http_post :: "network \<Rightarrow> request \<Rightarrow> world \<Rightarrow> http_result \<times> world" where
  "http_post net req w = (net (post_count w) req, emit (Post req) w)"

section \<open>Step 1: the retryable HTTP call\<close>

definition IDENTITY_BASE_URL :: string where
  "IDENTITY_BASE_URL = ''https://identity.mparticle.com/v1''"

definition EVENTS_BASE_URL :: string where
  "EVENTS_BASE_URL = ''https://s2s.mparticle.com/v2/events''"

definition ENVIRONMENT :: string where
  "ENVIRONMENT = ''production''"

definition REQUEST_TIMEOUT :: rat where
  "REQUEST_TIMEOUT = 20"

definition RATE_LIMIT_DELAY :: rat where
  "RATE_LIMIT_DELAY = 2 / 10"

definition MAX_RETRIES :: nat where
  "MAX_RETRIES = 3"

definition INITIAL_BACKOFF :: rat where
  "INITIAL_BACKOFF = 1"

definition EMAIL_HEADER :: string where
  "EMAIL_HEADER = ''Email_Address''"

definition MPID_HEADER :: string where
  "MPID_HEADER = ''External_ID''"

definition PHONE_HEADER :: string where
  "PHONE_HEADER = ''Phone_Number''"

text \<open>\<^verbatim>\<open>make_auth\<close>, with the two environment variables as parameters.\<close>

definition make_auth :: "string \<Rightarrow> string \<Rightarrow> (string option \<times> string option) option" where
  "make_auth MPARTICLE_API_KEY MPARTICLE_API_SECRET =
     (if MPARTICLE_API_KEY \<noteq> [] \<and> MPARTICLE_API_SECRET \<noteq> []
      then Some (Some MPARTICLE_API_KEY, Some MPARTICLE_API_SECRET) else None)"

text \<open>
  \<^verbatim>\<open>resp.json().get("Errors", [{}])[0].get("message")\<close>: the value found (\<open>JNull\<close>
  when the first error has no message), or the exception raised on the way: a
  \<^verbatim>\<open>RequestException\<close>, which the retry loop catches, or one it does not catch.
\<close>

datatype raised = Caught string | Uncaught py_error

fun first_item :: "json \<Rightarrow> py_error + json" where
  "first_item (JArr []) = Inl IndexError"
| "first_item (JArr (x # xs)) = Inr x"
| "first_item (JStr []) = Inl IndexError"
| "first_item (JStr (c # cs)) = Inr (JStr [c])"
| "first_item (JObj d) = Inl KeyError"
| "first_item _ = Inl TypeError"

fun get_message :: "json \<Rightarrow> py_error + json" where
  "get_message (JObj d) = Inr (case map_of d ''message'' of None \<Rightarrow> JNull | Some v \<Rightarrow> v)"
| "get_message _ = Inl AttributeError"

definition errors_message :: "response \<Rightarrow> raised + json" where
  "errors_message resp =
     (case resp_json resp of
        Inl e \<Rightarrow> Inl (Caught e)
      | Inr (JObj d) \<Rightarrow>
          (case first_item (case map_of d ''Errors'' of None \<Rightarrow> JArr [JObj []] | Some v \<Rightarrow> v) of
             Inl err \<Rightarrow> Inl (Uncaught err)
           | Inr x \<Rightarrow> (case get_message x of Inl err \<Rightarrow> Inl (Uncaught err) | Inr m \<Rightarrow> Inr m))
      | Inr _ \<Rightarrow> Inl (Uncaught AttributeError))"

definition MPID_MISSING :: string where
  "MPID_MISSING = ''MpId doesn'' @ [CHR 0x27] @ ''t exist''"

definition TO_MODIFY_EMPTY :: string where
  "TO_MODIFY_EMPTY = ''ToModifyIdentities is empty.''"

text \<open>\<^verbatim>\<open>f"Status {resp.status_code}: {resp.text}"\<close>\<close>

definition status_line :: "response \<Rightarrow> string" where
  "status_line resp = ''Status '' @ str_int (status_code resp) @ '': '' @ resp_text resp"

definition post_request ::
  "string \<Rightarrow> (string option \<times> string option) option \<Rightarrow> dict \<Rightarrow> request" where
  "post_request url auth json_payload =
     \<lparr>req_url = url, req_headers = [], req_auth = auth, req_json = JObj json_payload,
      req_timeout = Some REQUEST_TIMEOUT\<rparr>"

text \<open>\<^verbatim>\<open>ident["old_value"] = None\<close> on the \<open>i\<close>-th element of
  \<^verbatim>\<open>json_payload["identity_changes"]\<close>, in place.\<close>

definition clear_old_value :: "dict \<Rightarrow> nat \<Rightarrow> dict" where
  "clear_old_value json_payload i =
     (case map_of json_payload ''identity_changes'' of
        Some (JArr idents) \<Rightarrow>
          (case idents ! i of
             JObj ident \<Rightarrow>
               dict_set json_payload ''identity_changes''
                 (JArr (idents[i := JObj (dict_set ident ''old_value'' JNull)]))
           | _ \<Rightarrow> json_payload)
      | _ \<Rightarrow> json_payload)"

type_synonym post_result = "response option \<times> nat \<times> string option"

text \<open>
  Lines 93-100, reached with the \<open>resp\<close>, \<open>attempt\<close> and payload of that moment:
  \<^verbatim>\<open>resp.status_code\<close> on \<open>None\<close> raises, a 5xx or 429 status sleeps and continues the
  loop, any other status returns.
\<close>

datatype decision = Continue nat string dict | Stop "(post_result \<times> dict) outcome"

fun lines_93_100 :: "(post_result \<times> dict) outcome \<Rightarrow> decision" where
  "lines_93_100 (Return ((None, attempt, last_err), json_payload)) = Stop (Raise AttributeError)"
| "lines_93_100 (Return ((Some resp, attempt, last_err), json_payload)) =
     (if status_code resp \<ge> 500 \<or> status_code resp = 429
      then Continue attempt (status_line resp) json_payload
      else Stop (Return ((Some resp, attempt, Some (status_line resp)), json_payload)))"
| "lines_93_100 (Raise err) = Stop (Raise err)"
| "lines_93_100 Out_Of_Fuel = Stop Out_Of_Fuel"

text \<open>
  \<^verbatim>\<open>retryable_post\<close> (lines 68-107). The payload is a dict the function mutates in
  place, so the payload as it is at the end is returned beside the triple.
  \<open>retry_while\<close> is the \<^verbatim>\<open>while attempt < MAX_RETRIES\<close> loop, entered with the current
  \<open>attempt\<close>, \<open>backoff\<close> and \<open>last_err\<close>; \<open>resend_for\<close> is the
  \<^verbatim>\<open>for ident in json_payload["identity_changes"]\<close> loop at its \<open>i\<close>-th element, with
  the \<open>resp\<close>, \<open>attempt\<close> and \<open>last_err\<close> assigned so far.
  Each loop iteration and each recursive call uses one unit of fuel.
\<close>

function (sequential) retryable_post ::
    "nat \<Rightarrow> network \<Rightarrow> string \<Rightarrow> (string option \<times> string option) option \<Rightarrow> dict \<Rightarrow> bool
      \<Rightarrow> world \<Rightarrow> (post_result \<times> dict) outcome \<times> world"
and retry_while ::
    "nat \<Rightarrow> network \<Rightarrow> string \<Rightarrow> (string option \<times> string option) option \<Rightarrow> dict \<Rightarrow> bool
      \<Rightarrow> nat \<Rightarrow> rat \<Rightarrow> string option \<Rightarrow> world \<Rightarrow> (post_result \<times> dict) outcome \<times> world"
and resend_for ::
    "nat \<Rightarrow> network \<Rightarrow> string \<Rightarrow> (string option \<times> string option) option \<Rightarrow> dict \<Rightarrow> bool
      \<Rightarrow> nat \<Rightarrow> post_result \<Rightarrow> world \<Rightarrow> (post_result \<times> dict) outcome \<times> world"
where
  "retryable_post 0 net url auth json_payload dry_run w =
     (if dry_run then (Return ((None, 0, None), json_payload), w) else (Out_Of_Fuel, w))"
| "retryable_post (Suc fuel) net url auth json_payload dry_run w =
     (if dry_run then (Return ((None, 0, None), json_payload), w)
      else retry_while fuel net url auth json_payload dry_run 0 INITIAL_BACKOFF None w)"
| "retry_while 0 net url auth json_payload dry_run attempt backoff last_err w = (Out_Of_Fuel, w)"
| "retry_while (Suc fuel) net url auth json_payload dry_run attempt0 backoff last_err w =
     (if attempt0 < MAX_RETRIES then
        (let attempt = attempt0 + 1;
             posted = http_post net (post_request url auth json_payload) w;
             w1 = snd posted
         in case fst posted of
           RequestException e \<Rightarrow>
             retry_while fuel net url auth json_payload dry_run attempt (backoff * 2) (Some e)
               (sleep backoff w1)
         | Response resp \<Rightarrow>
             if 200 \<le> status_code resp \<and> status_code resp < 300
             then (Return ((Some resp, attempt, None), json_payload), w1)
             else
               (let tried =
                  (if status_code resp = 400 then
                     (case errors_message resp of
                        Inl e \<Rightarrow> (Inl e, w1)
                      | Inr m \<Rightarrow>
                          if m = JStr MPID_MISSING then
                            (let r = retryable_post fuel net url auth
                                       (dict_set json_payload ''environment'' (JStr ''development''))
                                       dry_run w1
                             in (Inr (fst r), snd r))
                          else if m = JStr TO_MODIFY_EMPTY then
                            (let r = resend_for fuel net url auth json_payload dry_run 0
                                       (Some resp, attempt, last_err) w1
                             in (Inr (fst r), snd r))
                          else (Inr (Return ((Some resp, attempt, last_err), json_payload)), w1))
                   else (Inr (Return ((Some resp, attempt, last_err), json_payload)), w1))
                in case fst tried of
                     Inl (Caught e) \<Rightarrow>
                       retry_while fuel net url auth json_payload dry_run attempt (backoff * 2)
                         (Some e) (sleep backoff (snd tried))
                   | Inl (Uncaught err) \<Rightarrow> (Raise err, snd tried)
                   | Inr r \<Rightarrow>
                       (case lines_93_100 r of
                          Continue attempt' last_err' json_payload' \<Rightarrow>
                            retry_while fuel net url auth json_payload' dry_run attempt'
                              (backoff * 2) (Some last_err') (sleep backoff (snd tried))
                        | Stop r' \<Rightarrow> (r', snd tried))))
      else (Return ((None, attempt0, last_err), json_payload), w))"
| "resend_for 0 net url auth json_payload dry_run i res w = (Out_Of_Fuel, w)"
| "resend_for (Suc fuel) net url auth json_payload dry_run i res w =
     (case map_of json_payload ''identity_changes'' of
        None \<Rightarrow> (Raise KeyError, w)
      | Some (JArr idents) \<Rightarrow>
          if i < length idents then
            (case subscript (idents ! i) ''identity_type'' of
               Inl err \<Rightarrow> (Raise err, w)
             | Inr t \<Rightarrow>
                 (let sent = retryable_post fuel net url auth
                               (if t = JStr ''mobile_number'' then clear_old_value json_payload i
                                else json_payload)
                               dry_run w
                  in case fst sent of
                       Return (res', json_payload') \<Rightarrow>
                         resend_for fuel net url auth json_payload' dry_run (i + 1) res' (snd sent)
                     | Raise err \<Rightarrow> (Raise err, snd sent)
                     | Out_Of_Fuel \<Rightarrow> (Out_Of_Fuel, snd sent)))
          else (Return (res, json_payload), w)
      | Some (JStr s) \<Rightarrow> if s = [] then (Return (res, json_payload), w) else (Raise TypeError, w)
      | Some (JObj d) \<Rightarrow> if d = [] then (Return (res, json_payload), w) else (Raise TypeError, w)
      | Some _ \<Rightarrow> (Raise TypeError, w))"
  by pat_completeness auto

termination
  by (relation "measure (\<lambda>x. case x of Inl a \<Rightarrow> fst a | Inr (Inl b) \<Rightarrow> fst b
                                  | Inr (Inr c) \<Rightarrow> fst c)") auto

declare retryable_post.simps [simp del] retry_while.simps [simp del] resend_for.simps [simp del]

section \<open>Step 1: payloads, the row processor and the driver\<close>

definition CHUNKS_DIR :: string where
  "CHUNKS_DIR = ''output/childprofiles/chunk''"

definition SUMMARY_DIR :: string where
  "SUMMARY_DIR = ''summaries''"

definition RESULT_SUMMARY :: string where
  "RESULT_SUMMARY = ''results_summary.csv''"

text \<open>\<^verbatim>\<open>x.strip() if x and x.strip() != "" else None\<close>\<close>

definition normalize_blank :: "string option \<Rightarrow> string option" where
  "normalize_blank x =
     (case x of None \<Rightarrow> None
      | Some s \<Rightarrow> if s \<noteq> [] \<and> strip s \<noteq> [] then Some (strip s) else None)"

definition identity_change :: "string \<Rightarrow> string \<Rightarrow> json" where
  "identity_change old_value identity_type =
     JObj [(''old_value'', JStr old_value), (''new_value'', JNull),
           (''identity_type'', JStr identity_type)]"

definition build_modify_payload :: "string option \<Rightarrow> string option \<Rightarrow> string \<Rightarrow> dict" where
  "build_modify_payload email0 phone0 environment =
     (let email = normalize_blank email0;
          phone = normalize_blank phone0
      in if email = None \<and> phone = None
         then [(''environment'', JStr environment), (''identity_changes'', JArr [])]
         else [(''environment'', JStr environment),
               (''identity_changes'',
                JArr ((case email of None \<Rightarrow> [] | Some e \<Rightarrow> [identity_change e ''email'']) @
                      (case phone of None \<Rightarrow> []
                       | Some p \<Rightarrow> [identity_change p ''mobile_number''])))])"

definition build_events_payload :: "string \<Rightarrow> dict" where
  "build_events_payload mpid =
     [(''mpid'', JStr mpid),
      (''schema_version'', JNum 2),
      (''environment'', JStr ENVIRONMENT),
      (''events'',
       JArr [JObj [(''event_type'', JStr ''custom_event''),
                   (''data'',
                    JObj [(''event_name'', JStr ''ProfileToKeep''),
                          (''custom_event_type'', JStr ''other''),
                          (''user_attribute_name'', JStr ''ProfileToKeep''),
                          (''new'', JStr ''false''),
                          (''is_new_attribute'', JStr ''false'')])]]),
      (''user_attributes'', JObj [(''ProfileToKeep'', JStr ''false''), (''$mobile'', JNull)]),
      (''user_identities'', JObj [(''email'', JNull), (''mobile_number'', JNull)])]"

text \<open>
  A row of \<^verbatim>\<open>csv.DictReader\<close>: the header's names with the cells of the line, a cell
  being \<open>None\<close> where the line is shorter than the header (the reader's \<^verbatim>\<open>restval\<close>).
  The cells beyond the header go under the key \<open>None\<close>, which no script reads: they are
  left out. The first line is the header, and empty lines are skipped.
\<close>

type_synonym row = "(string \<times> string option) list"

definition dict_row :: "string list \<Rightarrow> string list \<Rightarrow> row" where
  "dict_row fieldnames cells =
     foldl (\<lambda>d kv. dict_set d (fst kv) (snd kv)) []
       (zip fieldnames (map Some cells @ replicate (length fieldnames - length cells) None))"

definition dict_reader :: "table \<Rightarrow> row list" where
  "dict_reader t =
     (case t of [] \<Rightarrow> []
      | fieldnames # lines \<Rightarrow> map (dict_row fieldnames) (filter (\<lambda>l. l \<noteq> []) lines))"

text \<open>\<^verbatim>\<open>row.get(key, "").strip() or None\<close>: \<^verbatim>\<open>strip\<close> on a \<open>None\<close> cell raises.\<close>

definition get_stripped :: "row \<Rightarrow> string \<Rightarrow> py_error + string option" where
  "get_stripped row key =
     (case map_of row key of
        None \<Rightarrow> Inr (or_None (strip []))
      | Some None \<Rightarrow> Inl AttributeError
      | Some (Some s) \<Rightarrow> Inr (or_None (strip s)))"

text \<open>\<^verbatim>\<open>a or b\<close> on optional strings.\<close>

definition py_or :: "string option \<Rightarrow> string option \<Rightarrow> string option" where
  "py_or a b = (case a of None \<Rightarrow> b | Some s \<Rightarrow> if s = [] then b else a)"

record result =
  res_mpid :: string
  res_email :: string
  res_phone :: string
  res_modify_status :: string
  res_events_status :: string
  res_retries :: nat
  res_message :: string

definition MISSING_MPID :: string where
  "MISSING_MPID = ''SKIPPED: Missing MPID''"

text \<open>
  The body of the loop \<^verbatim>\<open>for row in reader\<close> of \<^verbatim>\<open>process_file\<close> (lines 196-273), with
  \<open>row_num\<close> already incremented: \<open>modify_step\<close> is step 1 of the body (lines 220-236),
  \<open>events_step\<close> step 2 (lines 241-260).
\<close>

definition modify_step ::
  "nat \<Rightarrow> network \<Rightarrow> (string option \<times> string option) option \<Rightarrow> bool \<Rightarrow> string
     \<Rightarrow> string option \<Rightarrow> string option \<Rightarrow> world
     \<Rightarrow> (string \<times> nat \<times> string option) outcome \<times> world" where
  "modify_step fuel net auth dry_run mpid email phone w =
     (let modify_url = IDENTITY_BASE_URL @ ''/'' @ mpid @ ''/modify'';
          modify_payload = build_modify_payload email phone ENVIRONMENT
      in if dry_run then (Return (''dry-run'', 0, None), w)
         else
           (case retryable_post fuel net modify_url auth modify_payload False w of
              (Return ((resp, attempts, err), p), w1) \<Rightarrow>
                (Return ((case resp of Some r \<Rightarrow> str_int (status_code r) | None \<Rightarrow> ''failed''),
                         attempts, err), w1)
            | (Raise e, w1) \<Rightarrow> (Raise e, w1)
            | (Out_Of_Fuel, w1) \<Rightarrow> (Out_Of_Fuel, w1)))"

definition events_step ::
  "nat \<Rightarrow> network \<Rightarrow> (string option \<times> string option) option \<Rightarrow> bool \<Rightarrow> string
     \<Rightarrow> string \<Rightarrow> world \<Rightarrow> (string \<times> nat \<times> string option) outcome \<times> world" where
  "events_step fuel net auth dry_run mpid modify_status w =
     (if dry_run then (Return (''dry-run'', 0, None), w)
      else if startswith modify_status ''2'' then
        (case retryable_post fuel net EVENTS_BASE_URL auth (build_events_payload mpid) False w of
           (Return ((resp2, attempts2, err2), p), w1) \<Rightarrow>
             (Return ((case resp2 of Some r \<Rightarrow> str_int (status_code r) | None \<Rightarrow> ''failed''),
                      attempts2, err2), w1)
         | (Raise e, w1) \<Rightarrow> (Raise e, w1)
         | (Out_Of_Fuel, w1) \<Rightarrow> (Out_Of_Fuel, w1))
      else (Return (''skipped_modify_failed'', 0, None), w))"

definition process_row ::
  "nat \<Rightarrow> network \<Rightarrow> (string option \<times> string option) option \<Rightarrow> bool \<Rightarrow> rat \<Rightarrow> nat \<Rightarrow> row
     \<Rightarrow> result list \<Rightarrow> world \<Rightarrow> result list outcome \<times> world" where
  "process_row fuel net auth dry_run rate_limit row_num row results w =
     (case get_stripped row EMAIL_HEADER of
        Inl e \<Rightarrow> (Raise e, w)
      | Inr email \<Rightarrow>
     (case get_stripped row MPID_HEADER of
        Inl e \<Rightarrow> (Raise e, w)
      | Inr mpid0 \<Rightarrow>
     (case get_stripped row PHONE_HEADER of
        Inl e \<Rightarrow> (Raise e, w)
      | Inr phone \<Rightarrow>
     (case mpid0 of
        None \<Rightarrow>
          (Return (results @
             [\<lparr>res_mpid = [], res_email = or_empty email, res_phone = or_empty phone,
               res_modify_status = ''skipped'', res_events_status = ''skipped'',
               res_retries = 0, res_message = MISSING_MPID\<rparr>]),
           emit (Log WARNING (Row_Skipped row_num MISSING_MPID)) w)
      | Some mpid \<Rightarrow>
          (case modify_step fuel net auth dry_run mpid email phone w of
             (Raise e, w1) \<Rightarrow> (Raise e, w1)
           | (Out_Of_Fuel, w1) \<Rightarrow> (Out_Of_Fuel, w1)
           | (Return (modify_status, modify_attempts, modify_err), w1) \<Rightarrow>
               (case events_step fuel net auth dry_run mpid modify_status w1 of
                  (Raise e, w2) \<Rightarrow> (Raise e, w2)
                | (Out_Of_Fuel, w2) \<Rightarrow> (Out_Of_Fuel, w2)
                | (Return (events_status, events_attempts, events_err), w2) \<Rightarrow>
                    (Return (results @
                       [\<lparr>res_mpid = mpid, res_email = or_empty email, res_phone = or_empty phone,
                         res_modify_status = modify_status, res_events_status = events_status,
                         res_retries = modify_attempts + events_attempts,
                         res_message = or_empty (py_or (py_or modify_err events_err) (Some []))\<rparr>]),
                     sleep rate_limit w2)))))))"

fun process_rows ::
  "nat \<Rightarrow> network \<Rightarrow> (string option \<times> string option) option \<Rightarrow> bool \<Rightarrow> rat \<Rightarrow> nat
     \<Rightarrow> row list \<Rightarrow> result list \<Rightarrow> world \<Rightarrow> result list outcome \<times> world" where
  "process_rows fuel net auth dry_run rate_limit row_num [] results w = (Return results, w)"
| "process_rows fuel net auth dry_run rate_limit row_num (row # rows) results w =
     (case process_row fuel net auth dry_run rate_limit (row_num + 1) row results w of
        (Return results', w') \<Rightarrow>
          process_rows fuel net auth dry_run rate_limit (row_num + 1) rows results' w'
      | (Raise e, w') \<Rightarrow> (Raise e, w')
      | (Out_Of_Fuel, w') \<Rightarrow> (Out_Of_Fuel, w'))"

text \<open>\<^verbatim>\<open>os.path.basename\<close> and the root of \<^verbatim>\<open>os.path.splitext\<close> on a file name: the
  extension starts at the last dot, unless only dots precede it.\<close>

definition basename :: "string \<Rightarrow> string" where
  "basename p = rev (takeWhile (\<lambda>c. c \<noteq> CHR ''/'') (rev p))"

definition splitext_root :: "string \<Rightarrow> string" where
  "splitext_root name =
     (let root = rev (tl (dropWhile (\<lambda>c. c \<noteq> CHR ''.'') (rev name)))
      in if CHR ''.'' \<in> set name \<and> list_ex (\<lambda>c. c \<noteq> CHR ''.'') root then root else name)"

definition SUMMARY_FIELDS :: "string list" where
  "SUMMARY_FIELDS =
     [''mpid'', ''email'', ''phone'', ''modify_status'', ''events_status'', ''retries'',
      ''message'']"

definition summary_line :: "result \<Rightarrow> string list" where
  "summary_line r =
     [res_mpid r, res_email r, res_phone r, res_modify_status r, res_events_status r,
      str_nat (res_retries r), res_message r]"

definition write_file :: "string \<Rightarrow> table \<Rightarrow> world \<Rightarrow> world" where
  "write_file path t w = w\<lparr>files := (files w)(path \<mapsto> t)\<rparr>"

text \<open>
  \<^verbatim>\<open>process_file\<close>: the rows of the chunk file are processed in order, then the summary
  file is written. An exception leaves the function before the summary is written.
  The environment variables \<^verbatim>\<open>MPARTICLE_API_KEY\<close> and \<^verbatim>\<open>MPARTICLE_API_SECRET\<close> are
  parameters; a file that cannot be opened raises.
\<close>

definition process_file ::
  "nat \<Rightarrow> network \<Rightarrow> string \<Rightarrow> string \<Rightarrow> string \<Rightarrow> bool \<Rightarrow> rat \<Rightarrow> world
     \<Rightarrow> string outcome \<times> world" where
  "process_file fuel net api_key api_secret file_path dry_run rate_limit w =
     (let filename = basename file_path;
          filestem = splitext_root filename;
          summary_path = SUMMARY_DIR @ ''/'' @ filestem @ ''_summary.csv'';
          auth = make_auth api_key api_secret
      in case files w file_path of
           None \<Rightarrow> (Raise FileNotFoundError, w)
         | Some t \<Rightarrow>
             (case process_rows fuel net auth dry_run rate_limit 0 (dict_reader t) [] w of
                (Return results, w') \<Rightarrow>
                  (Return summary_path,
                   write_file summary_path (SUMMARY_FIELDS # map summary_line results) w')
              | (Raise e, w') \<Rightarrow> (Raise e, w')
              | (Out_Of_Fuel, w') \<Rightarrow> (Out_Of_Fuel, w')))"

text \<open>\<^verbatim>\<open>combine_summaries\<close>: \<^verbatim>\<open>csv.DictWriter.writerow\<close> raises on a row with a key
  outside the field names, and writes an absent or \<open>None\<close> cell as the empty string.\<close>

fun read_summaries :: "(string \<Rightarrow> table option) \<Rightarrow> string list \<Rightarrow> py_error + row list" where
  "read_summaries fs [] = Inr []"
| "read_summaries fs (f # rest) =
     (case fs f of
        None \<Rightarrow> Inl FileNotFoundError
      | Some t \<Rightarrow>
          (case read_summaries fs rest of
             Inl e \<Rightarrow> Inl e
           | Inr combined \<Rightarrow> Inr (dict_reader t @ combined)))"

definition writer_line :: "string list \<Rightarrow> row \<Rightarrow> py_error + string list" where
  "writer_line fieldnames r =
     (if list_all (\<lambda>k. k \<in> set fieldnames) (map fst r)
      then Inr (map (\<lambda>k. case map_of r k of Some (Some s) \<Rightarrow> s | _ \<Rightarrow> []) fieldnames)
      else Inl ValueError)"

fun write_lines :: "string list \<Rightarrow> row list \<Rightarrow> table \<Rightarrow> py_error option \<times> table" where
  "write_lines fieldnames [] t = (None, t)"
| "write_lines fieldnames (r # rs) t =
     (case writer_line fieldnames r of
        Inl e \<Rightarrow> (Some e, t)
      | Inr l \<Rightarrow> write_lines fieldnames rs (t @ [l]))"

definition combine_summaries :: "string list \<Rightarrow> world \<Rightarrow> unit outcome \<times> world" where
  "combine_summaries summary_files w =
     (case read_summaries (files w) summary_files of
        Inl e \<Rightarrow> (Raise e, w)
      | Inr [] \<Rightarrow> (Return (), w)
      | Inr (first # others) \<Rightarrow>
          (let fieldnames = map fst first;
               written = write_lines fieldnames (first # others) [fieldnames];
               w' = write_file RESULT_SUMMARY (snd written) w
           in case fst written of None \<Rightarrow> (Return (), w') | Some e \<Rightarrow> (Raise e, w')))"

text \<open>
  \<^verbatim>\<open>main\<close> of step 1 (lines 312-334). The result of \<^verbatim>\<open>sorted(glob.glob(INPUT_GLOB))\<close> is
  the parameter \<open>found\<close>, the constant \<^verbatim>\<open>DRY_RUN\<close> the parameter \<open>dry_run\<close>.
  \<open>process_files\<close> is the loop \<^verbatim>\<open>for f in files\<close>: there is no \<^verbatim>\<open>try\<close> around its body.
\<close>

fun process_files ::
  "nat \<Rightarrow> network \<Rightarrow> string \<Rightarrow> string \<Rightarrow> bool \<Rightarrow> rat \<Rightarrow> string list \<Rightarrow> string list
     \<Rightarrow> world \<Rightarrow> string list outcome \<times> world" where
  "process_files fuel net api_key api_secret dry_run rate_limit [] summary_files w =
     (Return summary_files, w)"
| "process_files fuel net api_key api_secret dry_run rate_limit (f # fs) summary_files w =
     (case process_file fuel net api_key api_secret f dry_run rate_limit w of
        (Return summary_path, w') \<Rightarrow>
          process_files fuel net api_key api_secret dry_run rate_limit fs
            (summary_files @ [summary_path]) w'
      | (Raise e, w') \<Rightarrow> (Raise e, w')
      | (Out_Of_Fuel, w') \<Rightarrow> (Out_Of_Fuel, w'))"

definition main_step1 ::
  "nat \<Rightarrow> network \<Rightarrow> string \<Rightarrow> string \<Rightarrow> bool \<Rightarrow> string list \<Rightarrow> world
     \<Rightarrow> unit outcome \<times> world" where
  "main_step1 fuel net api_key api_secret dry_run found w =
     (if found = [] then (Return (), emit (Log ERROR (No_Files_Found CHUNKS_DIR)) w)
      else
        (case process_files fuel net api_key api_secret dry_run RATE_LIMIT_DELAY found [] w of
           (Return summary_files, w') \<Rightarrow> combine_summaries summary_files w'
         | (Raise e, w') \<Rightarrow> (Raise e, w')
         | (Out_Of_Fuel, w') \<Rightarrow> (Out_Of_Fuel, w')))"

section \<open>Step 2: the bulk-events sender\<close>

definition BULK_API_URL :: string where
  "BULK_API_URL = ''https://s2s.mparticle.com/v2/bulkevents''"

definition BATCH_SIZE :: nat where
  "BATCH_SIZE = 100"

definition ENVIRONMENT_step2 :: string where
  "ENVIRONMENT_step2 = ''development''"

definition LOG_FILE :: string where
  "LOG_FILE = ''logs_bulkevents_winnerprofile.csv''"

definition read_csv :: "string \<Rightarrow> world \<Rightarrow> (py_error + row list) \<times> world" where
  "read_csv input_file w =
     (case files w input_file of
        None \<Rightarrow> (Inl FileNotFoundError, w)
      | Some t \<Rightarrow> (Inr (dict_reader t), w))"

text \<open>\<^verbatim>\<open>chunkify\<close>: the slices \<^verbatim>\<open>data[i:i + size]\<close> for \<open>i\<close> in
  \<^verbatim>\<open>range(0, len(data), size)\<close>; a step of 0 makes \<^verbatim>\<open>range\<close> raise \<open>ValueError\<close> when the
  generator is first asked for a slice.\<close>

definition chunkify :: "'a list \<Rightarrow> nat \<Rightarrow> py_error + 'a list list" where
  "chunkify data size' =
     (if size' = 0 then Inl ValueError
      else Inr (map (\<lambda>j. take size' (drop (j * size') data))
                  [0 ..< (length data + size' - 1) div size']))"

text \<open>The cells of a log row before \<^verbatim>\<open>csv.writer\<close> renders them: \<open>None\<close> becomes the
  empty string, a number its decimal form.\<close>

datatype csv_value = CNone | CStr string | CInt int

fun render :: "csv_value \<Rightarrow> string" where
  "render CNone = []"
| "render (CStr s) = s"
| "render (CInt i) = str_int i"

text \<open>\<^verbatim>\<open>row.get(key)\<close>\<close>

definition row_get :: "row \<Rightarrow> string \<Rightarrow> string option" where
  "row_get row key = (case map_of row key of None \<Rightarrow> None | Some c \<Rightarrow> c)"

definition json_of :: "string option \<Rightarrow> json" where
  "json_of x = (case x of None \<Rightarrow> JNull | Some s \<Rightarrow> JStr s)"

definition csv_of :: "string option \<Rightarrow> csv_value" where
  "csv_of x = (case x of None \<Rightarrow> CNone | Some s \<Rightarrow> CStr s)"

definition user_event :: "row \<Rightarrow> json" where
  "user_event row =
     (let mpid = row_get row MPID_HEADER;
          email = row_get row EMAIL_HEADER
      in JObj
        [(''events'',
          JArr [JObj [(''event_type'', JStr ''custom_event''),
                      (''data'',
                       JObj [(''event_name'', JStr ''ProfileToKeep''),
                             (''custom_event_type'', JStr ''other''),
                             (''user_attribute_name'', JStr ''ProfileToKeep''),
                             (''email'', json_of email),
                             (''new'', JStr ''true''),
                             (''is_new_attribute'', JStr ''true'')])]]),
         (''user_attributes'', JObj [(''ProfileToKeep'', JStr ''true''), (''email'', json_of email)]),
         (''user_identities'', JObj [(''email'', json_of email)]),
         (''mpid'', json_of mpid),
         (''schema_version'', JNum 2),
         (''environment'', JStr ENVIRONMENT_step2)])"

definition log_rows_of :: "row list \<Rightarrow> csv_value \<Rightarrow> csv_value \<Rightarrow> csv_value list list" where
  "log_rows_of batch status response =
     map (\<lambda>row. [csv_of (row_get row MPID_HEADER), csv_of (row_get row EMAIL_HEADER), status,
                  response]) batch"

definition bulk_request :: "string option \<Rightarrow> string option \<Rightarrow> json \<Rightarrow> request" where
  "bulk_request API_KEY API_SECRET events_payload =
     \<lparr>req_url = BULK_API_URL, req_headers = [(''Content-Type'', ''application/json'')],
      req_auth = Some (API_KEY, API_SECRET), req_json = events_payload, req_timeout = None\<rparr>"

text \<open>
  The loop \<^verbatim>\<open>for attempt in range(retries)\<close> of \<^verbatim>\<open>send_batch\<close> (lines 92-114), entered
  at \<open>attempt\<close>. Any response, whatever its status, is logged for every row and returned;
  only a \<^verbatim>\<open>RequestException\<close> leads to the next attempt. A loop that ends without
  \<^verbatim>\<open>return\<close> makes the function return \<open>None\<close>.
\<close>

function send_attempts ::
  "network \<Rightarrow> string option \<Rightarrow> string option \<Rightarrow> row list \<Rightarrow> json \<Rightarrow> nat \<Rightarrow> rat \<Rightarrow> nat
     \<Rightarrow> world \<Rightarrow> csv_value list list option \<times> world" where
  "send_attempts net API_KEY API_SECRET batch events_payload retries backoff attempt w =
     (if attempt < retries then
        (let posted = http_post net (bulk_request API_KEY API_SECRET events_payload) w;
             w1 = snd posted
         in case fst posted of
              Response response \<Rightarrow>
                (Some (log_rows_of batch (CInt (status_code response))
                         (CStr (if status_code response = 202 then ''Success''
                                else resp_text response))),
                 w1)
            | RequestException e \<Rightarrow>
                (let w2 = emit (Log WARNING (Attempt_Failed (attempt + 1) e)) w1
                 in if int attempt < int retries - 1
                    then send_attempts net API_KEY API_SECRET batch events_payload retries backoff
                           (attempt + 1) (sleep (backoff * 2 ^ attempt) w2)
                    else (Some (log_rows_of batch (CStr ''Error'') (CStr e)),
                          emit (Log ERROR (Batch_Failed retries e)) w2)))
      else (None, w))"
  by pat_completeness auto

termination
  by (relation "measure (\<lambda>(net, k, s, batch, p, retries, backoff, attempt, w). retries - attempt)")
     auto

declare send_attempts.simps [simp del]

definition send_batch ::
  "bool \<Rightarrow> network \<Rightarrow> string option \<Rightarrow> string option \<Rightarrow> row list \<Rightarrow> nat \<Rightarrow> rat \<Rightarrow> world
     \<Rightarrow> csv_value list list option \<times> world" where
  "send_batch DRY_RUN net API_KEY API_SECRET batch retries backoff w =
     (let events_payload = JArr (map user_event batch)
      in if DRY_RUN then (Some (log_rows_of batch (CStr ''DRY_RUN'') (CStr ''Simulated'')), w)
         else send_attempts net API_KEY API_SECRET batch events_payload retries backoff 0 w)"

definition LOG_FIELDS :: "string list" where
  "LOG_FIELDS = [''mpid'', ''email'', ''Status Code'', ''Response'']"

definition write_log :: "csv_value list list option \<Rightarrow> world \<Rightarrow> (py_error + unit) \<times> world" where
  "write_log log_data w =
     (let opened = (case files w LOG_FILE of None \<Rightarrow> [LOG_FIELDS] | Some t \<Rightarrow> t)
      in case log_data of
           None \<Rightarrow> (Inl TypeError, write_file LOG_FILE opened w)
         | Some rows \<Rightarrow> (Inr (), write_file LOG_FILE (opened @ map (map render) rows) w))"

text \<open>The loop \<^verbatim>\<open>for batch in chunkify(all_data, BATCH_SIZE)\<close> of \<^verbatim>\<open>main\<close> (lines 126-129),
  with \<^verbatim>\<open>send_batch(batch)\<close> at its defaults \<^verbatim>\<open>retries=3, backoff=1\<close>.\<close>

fun send_batches ::
  "bool \<Rightarrow> network \<Rightarrow> string option \<Rightarrow> string option \<Rightarrow> row list list \<Rightarrow> world
     \<Rightarrow> (py_error + unit) \<times> world" where
  "send_batches DRY_RUN net API_KEY API_SECRET [] w = (Inr (), w)"
| "send_batches DRY_RUN net API_KEY API_SECRET (batch # batches) w =
     (case send_batch DRY_RUN net API_KEY API_SECRET batch 3 1 w of
        (logs, w1) \<Rightarrow>
          (case write_log logs w1 of
             (Inl e, w2) \<Rightarrow> (Inl e, w2)
           | (Inr u, w2) \<Rightarrow> send_batches DRY_RUN net API_KEY API_SECRET batches (sleep (5 / 10) w2)))"

text \<open>
  \<^verbatim>\<open>main\<close> of step 2 (lines 117-131), with \<^verbatim>\<open>sorted(glob(...))\<close> as the parameter
  \<open>chunk_files\<close>: the body of the loop is inside \<^verbatim>\<open>try ... except Exception\<close>, which
  logs the exception and goes on with the next file.
\<close>

definition process_chunk_file ::
  "bool \<Rightarrow> network \<Rightarrow> string option \<Rightarrow> string option \<Rightarrow> string \<Rightarrow> world
     \<Rightarrow> (py_error + unit) \<times> world" where
  "process_chunk_file DRY_RUN net API_KEY API_SECRET file_path w =
     (case read_csv file_path w of
        (Inl e, w1) \<Rightarrow> (Inl e, w1)
      | (Inr all_data, w1) \<Rightarrow>
          (case chunkify all_data BATCH_SIZE of
             Inl e \<Rightarrow> (Inl e, w1)
           | Inr batches \<Rightarrow> send_batches DRY_RUN net API_KEY API_SECRET batches w1))"

fun main_step2 ::
  "bool \<Rightarrow> network \<Rightarrow> string option \<Rightarrow> string option \<Rightarrow> string list \<Rightarrow> world \<Rightarrow> world" where
  "main_step2 DRY_RUN net API_KEY API_SECRET [] w = w"
| "main_step2 DRY_RUN net API_KEY API_SECRET (file_path # chunk_files) w =
     (case process_chunk_file DRY_RUN net API_KEY API_SECRET file_path w of
        (Inl e, w') \<Rightarrow>
          main_step2 DRY_RUN net API_KEY API_SECRET chunk_files
            (emit (Log ERROR (File_Failed file_path e)) w')
      | (Inr u, w') \<Rightarrow> main_step2 DRY_RUN net API_KEY API_SECRET chunk_files w')"

section \<open>The chunker\<close>

text \<open>\<^verbatim>\<open>col.strip().strip("'").strip('"') if col else ""\<close>\<close>

definition clean_cell :: "string \<Rightarrow> string" where
  "clean_cell col =
     (if col \<noteq> []
      then strip_chars (\<lambda>c. c = CHR 0x22) (strip_chars (\<lambda>c. c = CHR 0x27) (strip col))
      else [])"

definition part_name :: "string \<Rightarrow> nat \<Rightarrow> string" where
  "part_name output_prefix file_count = output_prefix @ ''_part'' @ str_nat file_count @ ''.csv''"

text \<open>
  The state of the loop of \<^verbatim>\<open>split_csv\<close>: the two counters, the files already closed (in
  the order they were opened) and the open file \<open>outfile\<close>, each with its name and the
  rows written to it.
\<close>

record split_state =
  file_count :: nat
  row_count :: nat
  closed :: "(string \<times> table) list"
  outfile :: "string \<times> table"

definition split_step :: "string \<Rightarrow> int \<Rightarrow> string list \<Rightarrow> split_state \<Rightarrow> string list \<Rightarrow> split_state" where
  "split_step output_prefix chunk_size header st row =
     (let cleaned_row = map clean_cell row;
          st1 = (if int (row_count st) \<ge> chunk_size
                 then \<lparr>file_count = file_count st + 1, row_count = 0,
                       closed = closed st @ [outfile st],
                       outfile = (part_name output_prefix (file_count st + 1), [header])\<rparr>
                 else st)
      in st1\<lparr>outfile := (fst (outfile st1), snd (outfile st1) @ [cleaned_row]),
              row_count := row_count st1 + 1\<rparr>)"

fun split_rows :: "string \<Rightarrow> int \<Rightarrow> string list \<Rightarrow> table \<Rightarrow> split_state \<Rightarrow> split_state" where
  "split_rows output_prefix chunk_size header [] st = st"
| "split_rows output_prefix chunk_size header (row # rows) st =
     split_rows output_prefix chunk_size header rows
       (split_step output_prefix chunk_size header st row)"

text \<open>The files \<^verbatim>\<open>split_csv\<close> has written when it ends, in the order they were opened,
  for the rows of the input (the header first).\<close>

definition split_table :: "string \<Rightarrow> int \<Rightarrow> table \<Rightarrow> py_error + (string \<times> table) list" where
  "split_table output_prefix chunk_size t =
     (case t of
        [] \<Rightarrow> Inl StopIteration
      | header # rows \<Rightarrow>
          (let st = split_rows output_prefix chunk_size header rows
                      \<lparr>file_count = 1, row_count = 0, closed = [],
                       outfile = (part_name output_prefix 1, [header])\<rparr>
           in Inr (closed st @ [outfile st])))"

text \<open>\<^verbatim>\<open>split_csv\<close> on the file system; the value returned is the \<open>file_count\<close> that the
  final \<^verbatim>\<open>print\<close> reports.\<close>

definition split_csv :: "string \<Rightarrow> string \<Rightarrow> int \<Rightarrow> world \<Rightarrow> (py_error + nat) \<times> world" where
  "split_csv input_file output_prefix chunk_size w =
     (case files w input_file of
        None \<Rightarrow> (Inl FileNotFoundError, w)
      | Some t \<Rightarrow>
          (case split_table output_prefix chunk_size t of
             Inl e \<Rightarrow> (Inl e, w)
           | Inr written \<Rightarrow>
               (Inr (length written), foldl (\<lambda>w' f. write_file (fst f) (snd f) w') w written)))"

section \<open>Concrete inputs\<close>

text \<open>Responses of the vendor API, endpoints and worlds on which the functions are run.\<close>

definition missing_response :: response where
  "missing_response =
     \<lparr>status_code = 400, resp_text = ''no such mpid'',
      resp_json = Inr (JObj [(''Errors'', JArr [JObj [(''message'', JStr MPID_MISSING)]])])\<rparr>"

definition empty_response :: response where
  "empty_response =
     \<lparr>status_code = 400, resp_text = ''nothing to modify'',
      resp_json = Inr (JObj [(''Errors'', JArr [JObj [(''message'', JStr TO_MODIFY_EMPTY)]])])\<rparr>"

definition ok_response :: response where
  "ok_response = \<lparr>status_code = 200, resp_text = ''OK'', resp_json = Inr (JObj [])\<rparr>"

definition busy_response :: response where
  "busy_response =
     \<lparr>status_code = 429, resp_text = ''Too Many Requests'', resp_json = Inl ''Expecting value''\<rparr>"

definition unavailable_response :: response where
  "unavailable_response =
     \<lparr>status_code = 503, resp_text = ''Service Unavailable'', resp_json = Inl ''Expecting value''\<rparr>"

text \<open>An endpoint that answers every request with "MpId doesn't exist".\<close>

definition always_missing :: network where
  "always_missing n req = Response missing_response"

text \<open>An endpoint that answers with the given results in order and is unreachable after.\<close>

definition replay :: "http_result list \<Rightarrow> network" where
  "replay rs n req = (if n < length rs then rs ! n else RequestException ''unreachable'')"

definition empty_world :: world where
  "empty_world = \<lparr>trace = [], files = (\<lambda>p. None)\<rparr>"

definition empty_modify_payload :: dict where
  "empty_modify_payload = [(''environment'', JStr ''production''), (''identity_changes'', JArr [])]"

definition winner_row :: row where
  "winner_row = [(''External_ID'', Some ''1001''), (''Email_Address'', Some ''a@example.com'')]"

text \<open>The second world has the trace of the first and possibly more after it.\<close>

definition grows :: "world \<Rightarrow> world \<Rightarrow> bool" where
  "grows w w' = (\<exists>rest. trace w' = trace w @ rest)"

definition no_contact_row :: row where
  "no_contact_row =
     [(''External_ID'', Some ''1001''), (''Email_Address'', Some []),
      (''Phone_Number'', Some '' '')]"

text \<open>Two chunk files, the first with a line shorter than its header.\<close>

definition CHUNK_HEADER :: "string list" where
  "CHUNK_HEADER = [''External_ID'', ''Email_Address'', ''Phone_Number'']"

definition short_line_world :: world where
  "short_line_world =
     \<lparr>trace = [],
      files = [''output/childprofiles/chunk/chunk_part1.csv'' \<mapsto> [CHUNK_HEADER, [''1001'']],
               ''output/childprofiles/chunk/chunk_part2.csv'' \<mapsto>
                 [CHUNK_HEADER, [''1002'', ''b@example.com'', ''5550100'']]]\<rparr>"

text \<open>
  For the loop of \<open>split_csv\<close>: the files written so far, the data rows of a file, and
  the invariant of the loop for a positive chunk size \<open>c\<close>. Every closed file holds the
  header and exactly \<open>c\<close> data rows, the open file the header and \<open>row_count\<close> data
  rows, at most \<open>c\<close> and at least one once a file has been closed, and the files are
  named part 1 to part \<open>file_count\<close>.
\<close>

definition files_of :: "split_state \<Rightarrow> (string \<times> table) list" where
  "files_of st = closed st @ [outfile st]"

definition data_rows :: "string \<times> table \<Rightarrow> table" where
  "data_rows f = tl (snd f)"

definition split_inv :: "nat \<Rightarrow> string \<Rightarrow> string list \<Rightarrow> split_state \<Rightarrow> bool" where
  "split_inv c output_prefix header st =
     (list_all (\<lambda>f. snd f = header # data_rows f \<and> length (data_rows f) = c) (closed st)
      \<and> snd (outfile st) = header # data_rows (outfile st)
      \<and> length (data_rows (outfile st)) = row_count st
      \<and> row_count st \<le> c
      \<and> (closed st = [] \<or> 0 < row_count st)
      \<and> file_count st = length (closed st) + 1
      \<and> map fst (files_of st) = map (part_name output_prefix) [1 ..< file_count st + 1])"

text \<open>An export with its header only, and one with three data rows.\<close>

definition header_only_world :: world where
  "header_only_world =
     \<lparr>trace = [], files = [''export.csv'' \<mapsto> [[''External_ID'', ''Email_Address'']]]\<rparr>"

definition three_rows_world :: world where
  "three_rows_world =
     \<lparr>trace = [],
      files = [''export.csv'' \<mapsto> [[''External_ID''], ['' 1001 ''], [''1002''], [''1003'']]]\<rparr>"

definition two_changes_payload :: dict where
  "two_changes_payload = build_modify_payload (Some ''a@example.com'') (Some ''5550100'') ENVIRONMENT"

definition plain_400_response :: response where
  "plain_400_response =
     \<lparr>status_code = 400, resp_text = ''Bad Request'',
      resp_json = Inl ''Expecting value: line 1 column 1 (char 0)''\<rparr>"

text \<open>
  The cleaning of a cell in the words of the spec, "stripped of surrounding whitespace and
  surrounding single/double quote characters": a surrounding character is a whitespace
  or a quote character, and \<open>spec_stripped\<close> takes all of them off both ends of the cell.
  A cell is \<open>layered\<close> when what surrounds its core is whitespace outside single quotes
  outside double quotes, as in \<^verbatim>\<open>  '"core"'  \<close>. \<open>cell_cleaned c c'\<close> says of an input cell
  \<open>c\<close> and an output cell \<open>c'\<close> that \<open>c'\<close> is \<open>c\<close> without some surrounding characters at
  its two ends, and without any of them when \<open>c\<close> is layered.
\<close>

definition surrounding :: "char \<Rightarrow> bool" where
  "surrounding c = (is_space c \<or> c = CHR 0x27 \<or> c = CHR 0x22)"

definition spec_stripped :: "string \<Rightarrow> string" where
  "spec_stripped s = rev (dropWhile surrounding (rev (dropWhile surrounding s)))"

definition layered :: "string \<Rightarrow> bool" where
  "layered s =
     (\<exists>ws1 sq1 dq1 core dq2 sq2 ws2.
        s = ws1 @ sq1 @ dq1 @ core @ dq2 @ sq2 @ ws2
        \<and> list_all is_space ws1 \<and> list_all is_space ws2
        \<and> list_all (\<lambda>c. c = CHR 0x27) sq1 \<and> list_all (\<lambda>c. c = CHR 0x27) sq2
        \<and> list_all (\<lambda>c. c = CHR 0x22) dq1 \<and> list_all (\<lambda>c. c = CHR 0x22) dq2
        \<and> (core = [] \<or> (\<not> surrounding (hd core) \<and> \<not> surrounding (last core))))"

definition cell_cleaned :: "string \<Rightarrow> string \<Rightarrow> bool" where
  "cell_cleaned c c' =
     ((\<exists>pre suf. c = pre @ c' @ suf \<and> list_all surrounding pre \<and> list_all surrounding suf)
      \<and> (layered c \<longrightarrow> c' = spec_stripped c))"

section \<open>Basic facts about the world\<close>

lemma trace_emit [simp]: "trace (emit e w) = trace w @ [e]"
  by (simp add: emit_def)

lemma files_emit [simp]: "files (emit e w) = files w"
  by (simp add: emit_def)

lemma trace_sleep [simp]: "trace (sleep d w) = trace w @ [Sleep d]"
  by (simp add: sleep_def)

lemma files_sleep [simp]: "files (sleep d w) = files w"
  by (simp add: sleep_def)

lemma posts_emit [simp]: "posts (emit e w) = (if is_Post e then posts w @ [e] else posts w)"
  by (simp add: posts_def)

lemma posts_sleep [simp]: "posts (sleep d w) = posts w"
  by (simp add: sleep_def)

lemma post_count_emit_Post [simp]: "post_count (emit (Post r) w) = Suc (post_count w)"
  by (simp add: post_count_def)

lemma post_count_sleep [simp]: "post_count (sleep d w) = post_count w"
  by (simp add: post_count_def)

lemma fst_http_post [simp]: "fst (http_post net req w) = net (post_count w) req"
  by (simp add: http_post_def)

lemma snd_http_post [simp]: "snd (http_post net req w) = emit (Post req) w"
  by (simp add: http_post_def)

lemma trace_write_file [simp]: "trace (write_file path t w) = trace w"
  by (simp add: write_file_def)

lemma posts_write_file [simp]: "posts (write_file path t w) = posts w"
  by (simp add: posts_def)

lemma post_count_empty_world [simp]: "post_count empty_world = 0"
  by (simp add: post_count_def posts_def empty_world_def)

lemma errors_message_missing [simp]: "errors_message missing_response = Inr (JStr MPID_MISSING)"
  by (simp add: errors_message_def missing_response_def)

lemma status_missing [simp]: "status_code missing_response = 400"
  by (simp add: missing_response_def)

section \<open>The retryable HTTP call\<close>

text \<open>
  When the endpoint answers every POST with the 400 body "MpId doesn't exist", every call
  and every loop iteration ends in a further recursive call: whatever the fuel, it is
  used up, and the number of POSTs issued grows with it.
\<close>

lemma missing_forever:
  assumes net: "\<And>n req. net n req = Response missing_response"
  shows "(fst (retryable_post fuel net url auth p False w) = Out_Of_Fuel
      \<and> post_count (snd (retryable_post fuel net url auth p False w))
          = post_count w + fuel div 2)
   \<and> (attempt < MAX_RETRIES \<longrightarrow>
        fst (retry_while fuel net url auth p False attempt backoff last_err w)
          = Out_Of_Fuel
      \<and> post_count (snd (retry_while fuel net url auth p False attempt backoff last_err w))
          = post_count w + (fuel + 1) div 2)"
proof (induction fuel arbitrary: p w attempt backoff last_err)
  case 0
  show ?case by (simp add: retryable_post.simps retry_while.simps)
next
  case (Suc fuel)
  have rp: "fst (retryable_post fuel net url auth p' False w') = Out_Of_Fuel"
       "post_count (snd (retryable_post fuel net url auth p' False w'))
          = post_count w' + fuel div 2" for p' w'
    using Suc.IH[where p=p' and w=w'] by simp_all
  have rw: "fst (retry_while fuel net url auth p False 0 INITIAL_BACKOFF None w) = Out_Of_Fuel"
       "post_count (snd (retry_while fuel net url auth p False 0 INITIAL_BACKOFF None w))
          = post_count w + (fuel + 1) div 2"
    using Suc.IH[where p=p and w=w and attempt=0 and backoff=INITIAL_BACKOFF and last_err=None]
    by (simp_all add: MAX_RETRIES_def)
  show ?case
    using rp rw net[of "post_count w" "post_request url auth p"]
    by (simp add: retryable_post.simps retry_while.simps Let_def)
qed

text \<open>
  C1 (on the code): for every URL, credentials, payload and world, the call against the
  endpoint \<open>always_missing\<close> does not return within any bound on the depth of its
  recursion, and with the bound \<open>fuel\<close> it has issued \<open>fuel div 2\<close> POSTs: the resend
  after "MpId doesn't exist" is not limited to one.
\<close>

theorem always_missing_never_returns:
  "fst (retryable_post fuel always_missing url auth p False w) = Out_Of_Fuel
   \<and> post_count (snd (retryable_post fuel always_missing url auth p False w))
       = post_count w + fuel div 2"
  using missing_forever[of always_missing fuel url auth p w]
  by (simp add: always_missing_def)

text \<open>
  C6: if the first POST of the call is answered with status 429 and the second with status
  200, the call returns the second response, the attempt count 2 and no error message,
  after exactly two POSTs and one sleep of the initial backoff.
\<close>

theorem retry_429_then_200:
  assumes "net (post_count w) (post_request url auth p) = Response r1"
    and "status_code r1 = 429"
    and "net (Suc (post_count w)) (post_request url auth p) = Response r2"
    and "status_code r2 = 200"
  shows "retryable_post (Suc (Suc (Suc fuel))) net url auth p False w =
           (Return ((Some r2, 2, None), p),
            emit (Post (post_request url auth p))
              (sleep INITIAL_BACKOFF (emit (Post (post_request url auth p)) w)))"
  using assms
  by (simp add: retryable_post.simps retry_while.simps MAX_RETRIES_def Let_def)

theorem retry_429_then_200_witness:
  "replay [Response busy_response, Response ok_response] (post_count empty_world)
     (post_request EVENTS_BASE_URL None []) = Response busy_response
   \<and> status_code busy_response = 429
   \<and> replay [Response busy_response, Response ok_response] (Suc (post_count empty_world))
       (post_request EVENTS_BASE_URL None []) = Response ok_response
   \<and> status_code ok_response = 200
   \<and> fst (retryable_post (Suc (Suc (Suc 0)))
            (replay [Response busy_response, Response ok_response]) EVENTS_BASE_URL None []
            False empty_world)
       = Return ((Some ok_response, 2, None), [])"
proof -
  have h1: "replay [Response busy_response, Response ok_response] (post_count empty_world)
              (post_request EVENTS_BASE_URL None []) = Response busy_response"
    by (simp add: replay_def)
  have h2: "status_code busy_response = 429"
    by (simp add: busy_response_def)
  have h3: "replay [Response busy_response, Response ok_response] (Suc (post_count empty_world))
              (post_request EVENTS_BASE_URL None []) = Response ok_response"
    by (simp add: replay_def)
  have h4: "status_code ok_response = 200"
    by (simp add: ok_response_def)
  show ?thesis
    using h1 h2 h3 h4
      retry_429_then_200[of "replay [Response busy_response, Response ok_response]" empty_world
        EVENTS_BASE_URL None "[]" busy_response ok_response 0]
    by simp
qed

text \<open>
  C7: if each of the \<open>MAX_RETRIES = 3\<close> POSTs of the call raises a network exception, the
  call issues exactly \<open>MAX_RETRIES\<close> POSTs and returns no response, the attempt count
  \<open>MAX_RETRIES\<close> and the text of the last exception.
\<close>

theorem permanent_network_failure:
  assumes "\<forall>i < MAX_RETRIES.
             net (post_count w + i) (post_request url auth p) = RequestException (e i)"
  shows "fst (retryable_post (Suc (Suc (Suc (Suc (Suc fuel))))) net url auth p False w) =
           Return ((None, MAX_RETRIES, Some (e (MAX_RETRIES - 1))), p)
         \<and> post_count
             (snd (retryable_post (Suc (Suc (Suc (Suc (Suc fuel))))) net url auth p False w))
             = post_count w + MAX_RETRIES"
proof -
  have 0: "net (post_count w) (post_request url auth p) = RequestException (e 0)"
    using assms[rule_format, of 0] by (simp add: MAX_RETRIES_def)
  have 1: "net (Suc (post_count w)) (post_request url auth p) = RequestException (e 1)"
    using assms[rule_format, of 1] by (simp add: MAX_RETRIES_def)
  have 2: "net (Suc (Suc (post_count w))) (post_request url auth p) = RequestException (e 2)"
    using assms[rule_format, of 2] by (simp add: MAX_RETRIES_def)
  show ?thesis
    using 0 1 2
    by (simp add: retryable_post.simps retry_while.simps MAX_RETRIES_def Let_def)
qed

theorem permanent_network_failure_witness:
  "replay [] (post_count empty_world + 0) (post_request EVENTS_BASE_URL None [])
     = RequestException ''unreachable''
   \<and> replay [] (post_count empty_world + 1) (post_request EVENTS_BASE_URL None [])
       = RequestException ''unreachable''
   \<and> replay [] (post_count empty_world + 2) (post_request EVENTS_BASE_URL None [])
       = RequestException ''unreachable''
   \<and> fst (retryable_post (Suc (Suc (Suc (Suc (Suc 0))))) (replay []) EVENTS_BASE_URL None []
            False empty_world)
       = Return ((None, 3, Some ''unreachable''), [])
   \<and> post_count
       (snd (retryable_post (Suc (Suc (Suc (Suc (Suc 0))))) (replay []) EVENTS_BASE_URL None []
               False empty_world)) = 3"
proof -
  have h: "\<forall>i < MAX_RETRIES.
      replay [] (post_count empty_world + i) (post_request EVENTS_BASE_URL None [])
        = RequestException ((\<lambda>i. ''unreachable'') i)"
    by (simp add: replay_def)
  show ?thesis
    using h
      permanent_network_failure[of "replay []" empty_world EVENTS_BASE_URL None "[]"
        "\<lambda>i. ''unreachable''" 0]
    by (simp add: MAX_RETRIES_def replay_def)
qed

text \<open>
  C2 (on the code): when the first POST is answered with the 400 body "MpId doesn't exist"
  and the resend with status 200, the call returns the 200 response with the error message
  \<open>Status 200: OK\<close> (not \<open>None\<close>) and the attempt count 1 after two POSTs; when the
  resend meets only network failures, the call raises \<open>AttributeError\<close> and returns no
  triple.
\<close>

theorem resend_results:
  "fst (retryable_post 4 (replay [Response missing_response, Response ok_response])
          IDENTITY_BASE_URL None empty_modify_payload False empty_world)
     = Return ((Some ok_response, 1, Some ''Status 200: OK''),
               [(''environment'', JStr ''development''), (''identity_changes'', JArr [])])
   \<and> post_count (snd (retryable_post 4 (replay [Response missing_response, Response ok_response])
          IDENTITY_BASE_URL None empty_modify_payload False empty_world)) = 2
   \<and> fst (retryable_post 7 (replay [Response missing_response])
          IDENTITY_BASE_URL None empty_modify_payload False empty_world)
     = Raise AttributeError"
  by code_simp

section \<open>The bulk-events sender\<close>

text \<open>
  C4 (on the code): when the first POST of a batch is answered with a response, whatever
  its status (5xx and 429 included), \<open>send_batch\<close> issues that one POST, does not sleep
  and returns the log rows carrying this status: there is no second attempt.
\<close>

theorem send_batch_returns_any_response:
  assumes "net (post_count w) (bulk_request k s (JArr (map user_event batch))) = Response r"
    and "0 < retries"
  shows "send_batch False net k s batch retries backoff w =
           (Some (log_rows_of batch (CInt (status_code r))
                    (CStr (if status_code r = 202 then ''Success'' else resp_text r))),
            emit (Post (bulk_request k s (JArr (map user_event batch)))) w)"
  using assms by (simp add: send_batch_def send_attempts.simps Let_def)

theorem send_batch_returns_any_response_witness:
  "replay [Response unavailable_response] (post_count empty_world)
     (bulk_request None None (JArr (map user_event [winner_row]))) = Response unavailable_response
   \<and> (0 :: nat) < 3
   \<and> send_batch False (replay [Response unavailable_response]) None None [winner_row] 3 1
        empty_world =
       (Some [[CStr ''1001'', CStr ''a@example.com'', CInt 503, CStr ''Service Unavailable'']],
        emit (Post (bulk_request None None (JArr (map user_event [winner_row])))) empty_world)"
proof -
  have h: "replay [Response unavailable_response] (post_count empty_world)
     (bulk_request None None (JArr (map user_event [winner_row]))) = Response unavailable_response"
    by (simp add: replay_def)
  show ?thesis
    using h
      send_batch_returns_any_response[of "replay [Response unavailable_response]" empty_world
        None None "[winner_row]" unavailable_response 3 1]
    by (simp add: log_rows_of_def row_get_def csv_of_def winner_row_def unavailable_response_def
          MPID_HEADER_def EMAIL_HEADER_def)
qed

section \<open>The row processor\<close>

lemma get_stripped_string:
  assumes "map_of row k \<noteq> Some None"
  shows "\<exists>x. get_stripped row k = Inr x"
proof (cases "map_of row k")
  case None
  then show ?thesis by (simp add: get_stripped_def)
next
  case (Some c)
  with assms obtain s where "c = Some s" by (cases c) auto
  with Some show ?thesis by (simp add: get_stripped_def)
qed

text \<open>
  For a row whose cells are strings and whose \<open>External_ID\<close> is absent or blank (empty
  once stripped), the row processor, in either mode, appends one result with
  \<open>modify_status\<close> and \<open>events_status\<close> both \<open>skipped\<close>, and the only thing it does to the
  world is to log the warning.
\<close>

lemma string_row_blank_mpid_skipped:
  assumes "\<And>k. map_of row k \<noteq> Some None"
    and "map_of row MPID_HEADER = None
         \<or> (\<exists>s. map_of row MPID_HEADER = Some (Some s) \<and> strip s = [])"
  shows "\<exists>r. process_row fuel net auth dry_run rate_limit row_num row results w
               = (Return (results @ [r]), emit (Log WARNING (Row_Skipped row_num MISSING_MPID)) w)
             \<and> res_modify_status r = ''skipped'' \<and> res_events_status r = ''skipped''"
proof -
  obtain email where e: "get_stripped row EMAIL_HEADER = Inr email"
    using get_stripped_string[OF assms(1)[of EMAIL_HEADER]] by blast
  obtain phone where p: "get_stripped row PHONE_HEADER = Inr phone"
    using get_stripped_string[OF assms(1)[of PHONE_HEADER]] by blast
  have m: "get_stripped row MPID_HEADER = Inr None"
    using assms(2) by (auto simp: get_stripped_def or_None_def strip_def strip_chars_def)
  show ?thesis
    by (simp add: process_row_def e p m)
qed

text \<open>
  C8 (on the code): on the line \<^verbatim>\<open>,a@example.com\<close> under the header
  \<^verbatim>\<open>External_ID,Email_Address,Phone_Number\<close> the identifier is blank and the phone cell
  is left unfilled, and on the line \<^verbatim>\<open>a@example.com\<close> under the header
  \<^verbatim>\<open>Email_Address,External_ID,Phone_Number\<close> the identifier itself is left unfilled: in
  both cases, in either mode, the row processor raises \<open>AttributeError\<close> (lines 199 and 198)
  before it tests the identifier, appends no result and leaves the world as it was.
\<close>

theorem short_line_blank_mpid_raises:
  "process_row fuel net auth dry_run rate_limit row_num
     (dict_row [''External_ID'', ''Email_Address'', ''Phone_Number''] [[], ''a@example.com''])
     results w = (Raise AttributeError, w)
   \<and> process_row fuel net auth dry_run rate_limit row_num
       (dict_row [''Email_Address'', ''External_ID'', ''Phone_Number''] [''a@example.com''])
       results w = (Raise AttributeError, w)"
  by (simp add: dict_row_def process_row_def get_stripped_def EMAIL_HEADER_def MPID_HEADER_def
        PHONE_HEADER_def or_None_def strip_def strip_chars_def is_space_def)

section \<open>Dry-run mode\<close>

lemma process_row_dry_run:
  "posts (snd (process_row fuel net auth True rate_limit row_num row results w)) = posts w
   \<and> fst (process_row fuel net auth True rate_limit row_num row results w) \<noteq> Out_Of_Fuel"
  by (simp add: process_row_def modify_step_def events_step_def split: sum.splits option.splits)

lemma process_rows_dry_run:
  "posts (snd (process_rows fuel net auth True rate_limit row_num rows results w)) = posts w
   \<and> fst (process_rows fuel net auth True rate_limit row_num rows results w) \<noteq> Out_Of_Fuel"
proof (induction rows arbitrary: row_num results w)
  case Nil
  show ?case by simp
next
  case (Cons row rows)
  show ?case
    using process_row_dry_run[of fuel net auth rate_limit "row_num + 1" row results w] Cons.IH
    by (cases "process_row fuel net auth True rate_limit (row_num + 1) row results w")
       (auto split: outcome.splits)
qed

lemma process_file_dry_run:
  "posts (snd (process_file fuel net k s f True rate_limit w)) = posts w
   \<and> fst (process_file fuel net k s f True rate_limit w) \<noteq> Out_Of_Fuel"
proof (cases "files w f")
  case None
  then show ?thesis by (simp add: process_file_def)
next
  case (Some t)
  show ?thesis
    using process_rows_dry_run[of fuel net "make_auth k s" rate_limit 0 "dict_reader t" "[]" w] Some
    by (cases "process_rows fuel net (make_auth k s) True rate_limit 0 (dict_reader t) [] w")
       (auto simp: process_file_def Let_def split: outcome.splits)
qed

lemma process_files_dry_run:
  "posts (snd (process_files fuel net k s True rate_limit fs summary_files w)) = posts w
   \<and> fst (process_files fuel net k s True rate_limit fs summary_files w) \<noteq> Out_Of_Fuel"
proof (induction fs arbitrary: summary_files w)
  case Nil
  show ?case by simp
next
  case (Cons f fs)
  show ?case
    using process_file_dry_run[of fuel net k s f rate_limit w] Cons.IH
    by (cases "process_file fuel net k s f True rate_limit w")
       (auto split: outcome.splits)
qed

lemma posts_combine_summaries: "posts (snd (combine_summaries summary_files w)) = posts w"
  by (simp add: combine_summaries_def Let_def split: sum.splits list.splits option.splits)

lemma main_step1_dry_run:
  "posts (snd (main_step1 fuel net k s True found w)) = posts w
   \<and> fst (main_step1 fuel net k s True found w) \<noteq> Out_Of_Fuel"
  using process_files_dry_run[of fuel net k s RATE_LIMIT_DELAY found "[]" w]
  by (cases "process_files fuel net k s True RATE_LIMIT_DELAY found [] w")
     (auto simp: main_step1_def posts_combine_summaries combine_summaries_def Let_def
           split: outcome.splits sum.splits list.splits option.splits)

lemma send_batch_dry_run: "snd (send_batch True net k s batch retries backoff w) = w"
  by (simp add: send_batch_def)

lemma posts_write_log: "posts (snd (write_log log_data w)) = posts w"
  by (simp add: write_log_def Let_def split: option.splits)

lemma send_batches_dry_run: "posts (snd (send_batches True net k s batches w)) = posts w"
proof (induction batches arbitrary: w)
  case Nil
  show ?case by simp
next
  case (Cons batch batches)
  show ?case
    using Cons.IH posts_write_log[of "fst (send_batch True net k s batch 3 1 w)" w]
      send_batch_dry_run[of net k s batch 3 1 w]
    by (cases "send_batch True net k s batch 3 1 w";
        cases "write_log (fst (send_batch True net k s batch 3 1 w)) w")
       (auto split: sum.splits)
qed

lemma process_chunk_file_dry_run:
  "posts (snd (process_chunk_file True net k s f w)) = posts w"
  by (simp add: process_chunk_file_def read_csv_def send_batches_dry_run
        split: option.splits sum.splits)

lemma main_step2_dry_run: "posts (main_step2 True net k s chunk_files w) = posts w"
proof (induction chunk_files arbitrary: w)
  case Nil
  show ?case by simp
next
  case (Cons f fs)
  show ?case
    using Cons.IH process_chunk_file_dry_run[of net k s f w]
    by (cases "process_chunk_file True net k s f w") (auto split: sum.splits)
qed

text \<open>
  C9: with the dry-run flag set, \<open>retryable_post\<close> returns at once and leaves the world
  as it was, and \<open>process_file\<close> and \<open>main\<close> of step 1, and \<open>send_batch\<close> and
  \<open>main\<close> of step 2, end (they do not depend on the fuel) in a world with exactly the
  POSTs it had before, for every endpoint, every list of files and every content of them.
\<close>

theorem dry_run_never_posts:
  "retryable_post fuel net url auth p True w = (Return ((None, 0, None), p), w)
   \<and> posts (snd (process_file fuel net k s f True rate_limit w)) = posts w
   \<and> fst (process_file fuel net k s f True rate_limit w) \<noteq> Out_Of_Fuel
   \<and> posts (snd (main_step1 fuel net k s True found w)) = posts w
   \<and> fst (main_step1 fuel net k s True found w) \<noteq> Out_Of_Fuel
   \<and> posts (snd (send_batch True net k2 s2 batch retries backoff w)) = posts w
   \<and> posts (main_step2 True net k2 s2 chunk_files w) = posts w"
  using process_file_dry_run[of fuel net k s f rate_limit w]
    main_step1_dry_run[of fuel net k s found w]
    main_step2_dry_run[of net k2 s2 chunk_files w]
  by (cases fuel) (simp_all add: retryable_post.simps send_batch_dry_run)

theorem dry_run_never_posts_witness:
  "retryable_post 1 always_missing EVENTS_BASE_URL None empty_modify_payload True empty_world
     = (Return ((None, 0, None), empty_modify_payload), empty_world)
   \<and> posts (snd (process_file 1 always_missing [] [] ''chunk_part1.csv'' True RATE_LIMIT_DELAY
                    empty_world)) = posts empty_world
   \<and> fst (process_file 1 always_missing [] [] ''chunk_part1.csv'' True RATE_LIMIT_DELAY
            empty_world) \<noteq> Out_Of_Fuel
   \<and> posts (snd (main_step1 1 always_missing [] [] True [''chunk_part1.csv''] empty_world))
       = posts empty_world
   \<and> fst (main_step1 1 always_missing [] [] True [''chunk_part1.csv''] empty_world) \<noteq> Out_Of_Fuel
   \<and> posts (snd (send_batch True always_missing None None [winner_row] 3 1 empty_world))
       = posts empty_world
   \<and> posts (main_step2 True always_missing None None [''chunk_part1.csv''] empty_world)
       = posts empty_world"
  by (rule dry_run_never_posts)

section \<open>What a call adds to the trace\<close>

lemma grows_refl [simp]: "grows w w"
  by (simp add: grows_def)

lemma grows_trans: "grows w w1 \<Longrightarrow> grows w1 w2 \<Longrightarrow> grows w w2"
  by (auto simp: grows_def)

lemma grows_emit [simp]: "grows w (emit e w)"
  by (simp add: grows_def)

lemma grows_sleep [simp]: "grows w (sleep d w)"
  by (simp add: grows_def)

lemma lines_cases:
  obtains (cont) a l p where "lines_93_100 r = Continue a l p"
        | (stop) r' where "lines_93_100 r = Stop r'"
  by (cases "lines_93_100 r") auto

lemma retryable_post_grows:
  "grows w (snd (retryable_post fuel net url auth p d w))
   \<and> grows w (snd (retry_while fuel net url auth p d attempt backoff last_err w))
   \<and> grows w (snd (resend_for fuel net url auth p d i res w))"
proof (induction fuel arbitrary: w p d attempt backoff last_err i res)
  case 0
  show ?case by (simp add: retryable_post.simps retry_while.simps resend_for.simps)
next
  case (Suc fuel)
  have rp: "grows w0 x \<Longrightarrow> grows w0 (snd (retryable_post fuel net url auth p' d' x))"
    for w0 x p' d'
    using Suc.IH[where w=x and p=p' and d=d'] grows_trans by blast
  have rw: "grows w0 x \<Longrightarrow> grows w0 (snd (retry_while fuel net url auth p' d' a b l x))"
    for w0 x p' d' a b l
    using Suc.IH[where w=x and p=p' and d=d' and attempt=a and backoff=b and last_err=l]
      grows_trans
    by blast
  have rf: "grows w0 x \<Longrightarrow> grows w0 (snd (resend_for fuel net url auth p' d' j r x))"
    for w0 x p' d' j r
    using Suc.IH[where w=x and p=p' and d=d' and i=j and res=r] grows_trans by blast
  have em: "grows w0 x \<Longrightarrow> grows w0 (emit e x)" for w0 x e
    using grows_trans grows_emit by blast
  have sl: "grows w0 x \<Longrightarrow> grows w0 (sleep b x)" for w0 x b
    using grows_trans grows_sleep by blast
  have 1: "grows w (snd (retryable_post (Suc fuel) net url auth p d w))"
    by (simp add: retryable_post.simps rw)
  have 2: "grows w (snd (retry_while (Suc fuel) net url auth p d attempt backoff last_err w))"
    by (auto simp: retry_while.simps Let_def rp rw rf em sl
          split: http_result.splits sum.splits raised.splits decision.splits)
  have 3: "grows w (snd (resend_for (Suc fuel) net url auth p d i res w))"
    by (auto simp: resend_for.simps Let_def rp rf
          split: option.splits json.splits sum.splits outcome.splits)
  show ?case using 1 2 3 by blast
qed




lemma grows_retryable_post:
  "grows w0 x \<Longrightarrow> grows w0 (snd (retryable_post fuel net url auth p d x))"
  using retryable_post_grows[of x fuel net url auth p d] grows_trans by blast

lemma grows_retry_while:
  "grows w0 x \<Longrightarrow> grows w0 (snd (retry_while fuel net url auth p d attempt backoff last_err x))"
  using retryable_post_grows[of x fuel net url auth p d attempt backoff last_err] grows_trans
  by blast

lemma grows_resend_for:
  "grows w0 x \<Longrightarrow> grows w0 (snd (resend_for fuel net url auth p d i res x))"
  using retryable_post_grows[of x fuel net url auth p d _ _ _ i res] grows_trans by blast

lemma grows_sleep_trans: "grows w0 x \<Longrightarrow> grows w0 (sleep b x)"
  using grows_trans grows_sleep by blast

lemma get_stripped_blank:
  assumes "map_of row k = None \<or> (\<exists>s. map_of row k = Some (Some s) \<and> strip s = [])"
  shows "get_stripped row k = Inr None"
  using assms by (auto simp: get_stripped_def or_None_def strip_def strip_chars_def)

lemma retry_while_first_post:
  assumes "attempt < MAX_RETRIES"
  shows "grows (emit (Post (post_request url auth p)) w)
           (snd (retry_while (Suc fuel) net url auth p d attempt backoff last_err w))"
  using assms
  by (auto simp: retry_while.simps Let_def grows_retryable_post grows_retry_while
        grows_resend_for grows_sleep_trans
        split: http_result.splits sum.splits raised.splits decision.splits)

lemma modify_step_first_post:
  "grows (emit (Post (post_request (IDENTITY_BASE_URL @ ''/'' @ mpid @ ''/modify'') auth
                  (build_modify_payload email phone ENVIRONMENT))) w)
     (snd (modify_step (Suc (Suc fuel)) net auth False mpid email phone w))"
  using retry_while_first_post[of 0 "IDENTITY_BASE_URL @ ''/'' @ mpid @ ''/modify''" auth
          "build_modify_payload email phone ENVIRONMENT" w fuel net False INITIAL_BACKOFF None]
  by (cases "retry_while (Suc fuel) net (IDENTITY_BASE_URL @ ''/'' @ mpid @ ''/modify'') auth
               (build_modify_payload email phone ENVIRONMENT) False 0 INITIAL_BACKOFF None w")
     (auto simp: modify_step_def Let_def retryable_post.simps MAX_RETRIES_def
           split: outcome.splits option.splits)

lemma events_step_grows:
  "grows w (snd (events_step fuel net auth d mpid status w))"
  using retryable_post_grows[of w fuel net EVENTS_BASE_URL auth "build_events_payload mpid" False]
  by (cases "retryable_post fuel net EVENTS_BASE_URL auth (build_events_payload mpid) False w")
     (auto simp: events_step_def split: outcome.splits option.splits)

text \<open>
  C10 (amended): outside dry-run mode, for a row whose \<open>External_ID\<close> cell is a string
  that is not blank and whose \<open>Email_Address\<close> and \<open>Phone_Number\<close> cells are each absent
  from the row or a blank string (empty once stripped), the first thing the row processor
  does is to POST to the modify endpoint of that identifier the payload with the
  environment and an empty \<open>identity_changes\<close> list.
\<close>

theorem modify_post_with_empty_changes:
  assumes "map_of row MPID_HEADER = Some (Some m)" and "strip m \<noteq> []"
    and "map_of row EMAIL_HEADER = None
         \<or> (\<exists>s. map_of row EMAIL_HEADER = Some (Some s) \<and> strip s = [])"
    and "map_of row PHONE_HEADER = None
         \<or> (\<exists>s. map_of row PHONE_HEADER = Some (Some s) \<and> strip s = [])"
  shows "\<exists>rest. trace (snd (process_row (Suc (Suc fuel)) net auth False rate_limit row_num row
                              results w))
           = trace w
             @ Post (post_request (IDENTITY_BASE_URL @ ''/'' @ strip m @ ''/modify'') auth
                      [(''environment'', JStr ENVIRONMENT), (''identity_changes'', JArr [])])
             # rest"
proof -
  let ?req = "post_request (IDENTITY_BASE_URL @ ''/'' @ strip m @ ''/modify'') auth
                (build_modify_payload None None ENVIRONMENT)"
  have e: "get_stripped row EMAIL_HEADER = Inr None"
    using assms(3) by (rule get_stripped_blank)
  have p: "get_stripped row PHONE_HEADER = Inr None"
    using assms(4) by (rule get_stripped_blank)
  have i: "get_stripped row MPID_HEADER = Inr (Some (strip m))"
    using assms(1,2) by (simp add: get_stripped_def or_None_def)
  have payload: "build_modify_payload None None ENVIRONMENT
                   = [(''environment'', JStr ENVIRONMENT), (''identity_changes'', JArr [])]"
    by (simp add: build_modify_payload_def normalize_blank_def)
  obtain r1 w1 where m1: "modify_step (Suc (Suc fuel)) net auth False (strip m) None None w = (r1, w1)"
    by (cases "modify_step (Suc (Suc fuel)) net auth False (strip m) None None w")
  have g1: "grows (emit (Post ?req) w) w1"
    using modify_step_first_post[of "strip m" auth None None w fuel net] m1 by simp
  have "grows (emit (Post ?req) w)
          (snd (process_row (Suc (Suc fuel)) net auth False rate_limit row_num row results w))"
  proof (cases r1)
    case (Return x)
    obtain modify_status modify_attempts modify_err where x: "x = (modify_status, modify_attempts, modify_err)"
      by (cases x)
    obtain r2 w2 where m2: "events_step (Suc (Suc fuel)) net auth False (strip m) modify_status w1 = (r2, w2)"
      by (cases "events_step (Suc (Suc fuel)) net auth False (strip m) modify_status w1")
    have g2: "grows w1 w2"
      using events_step_grows[of w1 "Suc (Suc fuel)" net auth False "strip m" modify_status] m2
      by simp
    have g12: "grows (emit (Post ?req) w) w2"
      using g1 g2 by (rule grows_trans)
    show ?thesis
      using g12 grows_sleep_trans[OF g12]
      by (cases r2) (auto simp: process_row_def e p i m1 m2 Return x)
  next
    case (Raise err)
    then show ?thesis using g1 by (simp add: process_row_def e p i m1)
  next
    case Out_Of_Fuel
    then show ?thesis using g1 by (simp add: process_row_def e p i m1)
  qed
  then show ?thesis
    by (auto simp: grows_def payload)
qed

text \<open>
  C10 as stated fails in dry-run mode, where for such a row no POST is issued at all, and,
  outside dry-run mode, on the line \<^verbatim>\<open>1001\<close> under the header
  \<^verbatim>\<open>External_ID,Email_Address,Phone_Number\<close>, whose email and phone cells are left
  unfilled: there the row processor raises \<open>AttributeError\<close> and issues no POST.
\<close>

theorem no_modify_post_cases:
  "posts (snd (process_row 5 (replay [Response ok_response, Response ok_response]) None True
                 RATE_LIMIT_DELAY 1 no_contact_row [] empty_world)) = []
   \<and> process_row 5 (replay [Response ok_response, Response ok_response]) None False
        RATE_LIMIT_DELAY 1 (dict_row CHUNK_HEADER [''1001'']) [] empty_world
       = (Raise AttributeError, empty_world)
   \<and> posts empty_world = []"
  by (simp add: process_row_def modify_step_def events_step_def get_stripped_def
        no_contact_row_def EMAIL_HEADER_def MPID_HEADER_def PHONE_HEADER_def or_None_def
        strip_def strip_chars_def is_space_def posts_def empty_world_def dict_row_def
        CHUNK_HEADER_def)

theorem modify_post_with_empty_changes_witness:
  "map_of no_contact_row MPID_HEADER = Some (Some ''1001'')
   \<and> strip ''1001'' \<noteq> []
   \<and> (map_of no_contact_row EMAIL_HEADER = None
       \<or> (\<exists>s. map_of no_contact_row EMAIL_HEADER = Some (Some s) \<and> strip s = []))
   \<and> (map_of no_contact_row PHONE_HEADER = None
       \<or> (\<exists>s. map_of no_contact_row PHONE_HEADER = Some (Some s) \<and> strip s = []))
   \<and> (\<exists>rest. trace (snd (process_row (Suc (Suc 0)) (replay [Response ok_response]) None False
                              RATE_LIMIT_DELAY 1 no_contact_row [] empty_world))
           = trace empty_world
             @ Post (post_request (IDENTITY_BASE_URL @ ''/'' @ strip ''1001'' @ ''/modify'') None
                      [(''environment'', JStr ENVIRONMENT), (''identity_changes'', JArr [])])
             # rest)"
proof -
  have h2: "map_of no_contact_row MPID_HEADER = Some (Some ''1001'')"
    by (simp add: no_contact_row_def MPID_HEADER_def)
  have h3: "strip ''1001'' \<noteq> []"
    by (simp add: strip_def strip_chars_def is_space_def)
  have h4: "map_of no_contact_row EMAIL_HEADER = None
       \<or> (\<exists>s. map_of no_contact_row EMAIL_HEADER = Some (Some s) \<and> strip s = [])"
    by (simp add: no_contact_row_def EMAIL_HEADER_def strip_def strip_chars_def)
  have h5: "map_of no_contact_row PHONE_HEADER = None
       \<or> (\<exists>s. map_of no_contact_row PHONE_HEADER = Some (Some s) \<and> strip s = [])"
    by (simp add: no_contact_row_def PHONE_HEADER_def strip_def strip_chars_def is_space_def)
  show ?thesis
    using h2 h3 h4 h5
      modify_post_with_empty_changes[of no_contact_row "''1001''" 0
        "replay [Response ok_response]" None RATE_LIMIT_DELAY 1 "[]" empty_world,
        OF h2 h3 h4 h5]
    by blast
qed

section \<open>The drivers\<close>

text \<open>
  C5 (on the code): in step 1, an exception raised while one file is processed ends
  \<open>main\<close> with that exception, in the world of that moment: the files after it are not
  processed and the summaries are not combined.
\<close>

theorem step1_exception_aborts_run:
  assumes "process_file fuel net k s f dry_run RATE_LIMIT_DELAY w = (Raise e, w')"
  shows "main_step1 fuel net k s dry_run (f # rest) w = (Raise e, w')"
  using assms by (simp add: main_step1_def)

lemma dict_row_short:
  "dict_row CHUNK_HEADER [''1001'']
     = [(''External_ID'', Some ''1001''), (''Email_Address'', None), (''Phone_Number'', None)]"
  by (simp add: dict_row_def CHUNK_HEADER_def)

lemma process_file_short_line:
  "process_file fuel net k s ''output/childprofiles/chunk/chunk_part1.csv'' True RATE_LIMIT_DELAY
     short_line_world = (Raise AttributeError, short_line_world)"
  by (simp add: process_file_def short_line_world_def dict_reader_def dict_row_short
        process_row_def get_stripped_def EMAIL_HEADER_def Let_def)

theorem step1_exception_aborts_run_witness:
  "process_file 1 (replay []) [] [] ''output/childprofiles/chunk/chunk_part1.csv'' True
     RATE_LIMIT_DELAY short_line_world = (Raise AttributeError, short_line_world)
   \<and> main_step1 1 (replay []) [] [] True
        [''output/childprofiles/chunk/chunk_part1.csv'',
         ''output/childprofiles/chunk/chunk_part2.csv''] short_line_world
       = (Raise AttributeError, short_line_world)
   \<and> files short_line_world ''summaries/chunk_part2_summary.csv'' = None"
  using process_file_short_line[of 1 "replay []" "[]" "[]"]
    step1_exception_aborts_run[OF process_file_short_line[of 1 "replay []" "[]" "[]"],
      of "[''output/childprofiles/chunk/chunk_part2.csv'']"]
  by (simp add: short_line_world_def)

text \<open>In step 2 the exception is logged and the loop goes on with the next file.\<close>

lemma step2_exception_continues:
  assumes "process_chunk_file d net k s f w = (Inl e, w')"
  shows "main_step2 d net k s (f # rest) w
           = main_step2 d net k s rest (emit (Log ERROR (File_Failed f e)) w')"
  using assms by simp

lemma step1_success_continues:
  assumes "process_file fuel net k s f dry_run RATE_LIMIT_DELAY w = (Return p, w')"
  shows "process_files fuel net k s dry_run RATE_LIMIT_DELAY (f # rest) done w
           = process_files fuel net k s dry_run RATE_LIMIT_DELAY rest (done @ [p]) w'"
  using assms by simp

section \<open>The chunker\<close>

lemma split_step_inv:
  assumes "0 < c" and "split_inv c output_prefix header st"
  shows "split_inv c output_prefix header (split_step output_prefix (int c) header st row)
         \<and> concat (map data_rows (files_of (split_step output_prefix (int c) header st row)))
             = concat (map data_rows (files_of st)) @ [map clean_cell row]"
proof (cases "c \<le> row_count st")
  case True
  then show ?thesis
    using assms
    by (auto simp: split_inv_def split_step_def files_of_def data_rows_def Let_def)
next
  case False
  obtain d where d: "snd (outfile st) = header # d"
    using assms(2) by (auto simp: split_inv_def)
  show ?thesis
    using assms False d
    by (auto simp: split_inv_def split_step_def files_of_def data_rows_def Let_def)
qed

lemma split_rows_inv:
  assumes "0 < c" and "split_inv c output_prefix header st"
  shows "split_inv c output_prefix header (split_rows output_prefix (int c) header rows st)
         \<and> concat (map data_rows (files_of (split_rows output_prefix (int c) header rows st)))
             = concat (map data_rows (files_of st)) @ map (map clean_cell) rows"
  using assms(2)
proof (induction rows arbitrary: st)
  case Nil
  then show ?case by simp
next
  case (Cons row rows)
  have s: "split_inv c output_prefix header (split_step output_prefix (int c) header st row)"
    and t: "concat (map data_rows (files_of (split_step output_prefix (int c) header st row)))
             = concat (map data_rows (files_of st)) @ [map clean_cell row]"
    using split_step_inv[OF assms(1) Cons.prems] by simp_all
  show ?case
    using Cons.IH[OF s] t by simp
qed

lemma full_files_length:
  "list_all (\<lambda>f. snd f = header # data_rows f \<and> length (data_rows f) = c) fs
   \<Longrightarrow> length (concat (map data_rows fs)) = c * length fs"
  by (induction fs) simp_all

lemma split_inv_total:
  assumes "split_inv c output_prefix header st"
  shows "length (concat (map data_rows (files_of st))) = c * length (closed st) + row_count st"
  using assms full_files_length[of header c "closed st"]
  by (simp add: split_inv_def files_of_def)

lemma chunk_count:
  fixes c k rc R :: nat
  assumes "0 < c" and "R = c * k + rc" and "rc \<le> c" and "k = 0 \<or> 0 < rc"
  shows "k + 1 = (if R = 0 then 1 else (R + c - 1) div c)"
proof (cases "R = 0")
  case True
  then show ?thesis using assms by auto
next
  case False
  then have rc: "0 < rc" using assms by auto
  have e1: "R + c - 1 = c * (k + 1) + (rc - 1)"
    using assms(2) rc by simp
  have e2: "(c * (k + 1) + (rc - 1)) div c = (k + 1) + (rc - 1) div c"
    by (rule div_mult_self4) (use assms(1) in simp)
  have e3: "(rc - 1) div c = 0"
    using rc assms(3) by simp
  have "(R + c - 1) div c = k + 1"
    unfolding e1 e2 e3 by simp
  then show ?thesis using False by simp
qed

lemma data_rows_eq: "data_rows = (\<lambda>f. tl (snd f))"
  by (rule ext) (simp add: data_rows_def)

lemma split_inv_init:
  "split_inv c output_prefix header
     \<lparr>file_count = 1, row_count = 0, closed = [],
      outfile = (part_name output_prefix 1, [header])\<rparr>"
  by (simp add: split_inv_def files_of_def data_rows_def)

lemma split_inv_files:
  assumes "split_inv c output_prefix header st"
  shows "list_all (\<lambda>f. \<exists>chunk. snd f = header # chunk \<and> length chunk \<le> c) (files_of st)"
  using assms
  by (auto simp: split_inv_def files_of_def list_all_iff)

text \<open>
  The files \<open>split_csv\<close> writes for an input with a header and a positive chunk size:
  their number, their names, their sizes, and their data rows, which are the rows of the
  input with \<open>clean_cell\<close> applied to every cell.
\<close>

lemma split_csv_files:
  assumes "files w input_file = Some (header # rows)" and "0 < chunk_size"
  shows "\<exists>written.
           split_csv input_file output_prefix chunk_size w
             = (Inr (length written), foldl (\<lambda>w' f. write_file (fst f) (snd f) w') w written)
         \<and> length written
             = (if rows = [] then 1 else (length rows + nat chunk_size - 1) div nat chunk_size)
         \<and> map fst written = map (part_name output_prefix) [1 ..< length written + 1]
         \<and> list_all (\<lambda>f. \<exists>chunk. snd f = header # chunk \<and> length chunk \<le> nat chunk_size)
              written
         \<and> concat (map (\<lambda>f. tl (snd f)) written) = map (map clean_cell) rows"
proof -
  let ?c = "nat chunk_size"
  let ?st0 = "\<lparr>file_count = 1, row_count = 0, closed = [],
               outfile = (part_name output_prefix 1, [header])\<rparr>"
  let ?st = "split_rows output_prefix chunk_size header rows ?st0"
  have c: "0 < ?c" and ic: "int ?c = chunk_size"
    using assms(2) by simp_all
  have inv: "split_inv ?c output_prefix header ?st"
    and data: "concat (map data_rows (files_of ?st)) = map (map clean_cell) rows"
    using split_rows_inv[OF c split_inv_init, of output_prefix header rows, unfolded ic]
    by (simp_all add: files_of_def data_rows_def)
  have tab: "split_table output_prefix chunk_size (header # rows) = Inr (files_of ?st)"
    by (simp add: split_table_def files_of_def Let_def)
  have total: "length rows = ?c * length (closed ?st) + row_count ?st"
    using split_inv_total[OF inv] data by simp
  have n: "length (files_of ?st)
             = (if rows = [] then 1 else (length rows + ?c - 1) div ?c)"
    using chunk_count[OF c total] inv
    by (simp add: split_inv_def files_of_def)
  have names: "map fst (files_of ?st) = map (part_name output_prefix) [1 ..< length (files_of ?st) + 1]"
    using inv by (simp add: split_inv_def files_of_def)
  have d: "concat (map (\<lambda>f. tl (snd f)) (files_of ?st)) = map (map clean_cell) rows"
    using data by (simp add: data_rows_eq)
  show ?thesis
    using n names split_inv_files[OF inv] d
    by (intro exI[of _ "files_of ?st"]) (simp add: split_csv_def assms(1) tab)
qed

text \<open>What \<open>clean_cell\<close> does to a cell, against the cleaning the spec describes.\<close>

lemma strip_chars_decomp:
  "\<exists>pre suf. s = pre @ strip_chars p s @ suf \<and> list_all p pre \<and> list_all p suf"
proof -
  let ?t = "dropWhile p s"
  have 1: "s = takeWhile p s @ ?t" by simp
  have "rev (rev ?t) = rev (takeWhile p (rev ?t) @ dropWhile p (rev ?t))"
    by (simp only: takeWhile_dropWhile_id)
  then have 2: "?t = rev (dropWhile p (rev ?t)) @ rev (takeWhile p (rev ?t))"
    by (simp only: rev_rev_ident rev_append)
  have 3: "list_all p (takeWhile p s)"
    by (auto simp: list_all_iff dest: set_takeWhileD)
  have 4: "list_all p (rev (takeWhile p (rev ?t)))"
    by (auto simp: list_all_iff dest: set_takeWhileD)
  have "s = takeWhile p s @ strip_chars p s @ rev (takeWhile p (rev ?t))"
    using 1 2 by (simp add: strip_chars_def)
  then show ?thesis using 3 4 by blast
qed

lemma strip_layer:
  assumes "list_all p a" and "list_all p b"
    and "m = [] \<or> (\<not> p (hd m) \<and> \<not> p (last m))"
  shows "strip_chars p (a @ m @ b) = m"
proof (cases "m = []")
  case True
  have d: "dropWhile p (a @ b) = []"
    unfolding dropWhile_eq_Nil_conv using assms(1,2) by (auto simp: list_all_iff)
  show ?thesis
    unfolding strip_chars_def True append_Nil d by simp
next
  case False
  then have h: "\<not> p (hd m)" and l: "\<not> p (last m)" using assms(3) by auto
  have a: "dropWhile p (a @ m @ b) = m @ b"
    using assms(1) False h by (cases m) (auto simp: list_all_iff dropWhile_append2)
  obtain y ys where r: "rev m = y # ys"
    using False by (cases "rev m") auto
  have "hd (rev m) = last m" using False by (simp add: hd_rev)
  then have y: "\<not> p y" using r l by simp
  have db: "dropWhile p (rev b) = []"
    unfolding dropWhile_eq_Nil_conv using assms(2) by (auto simp: list_all_iff)
  have b: "dropWhile p (rev b @ rev m) = rev m"
    unfolding r using dropWhile_append3[of p y "rev b" ys] y db by simp
  show ?thesis by (simp add: strip_chars_def a b)
qed

lemma layer_ends:
  assumes "list_all q a" and "list_all q b"
    and "m = [] \<or> (r (hd m) \<and> r (last m))"
    and "\<And>c. q c \<Longrightarrow> r c"
  shows "a @ m @ b = [] \<or> (r (hd (a @ m @ b)) \<and> r (last (a @ m @ b)))"
proof -
  have ha: "a \<noteq> [] \<Longrightarrow> r (hd a)" using assms(1,4) by (cases a) auto
  have hb: "b \<noteq> [] \<Longrightarrow> r (hd b)" using assms(2,4) by (cases b) auto
  have la: "a \<noteq> [] \<Longrightarrow> r (last a)" using assms(1,4) by (auto simp: list_all_iff)
  have lb: "b \<noteq> [] \<Longrightarrow> r (last b)" using assms(2,4) by (auto simp: list_all_iff)
  show ?thesis
    using ha hb la lb assms(3)
    by (cases "a = []"; cases "b = []"; cases "m = []") (auto simp: hd_append)
qed

lemma not_space_quotes [simp]: "\<not> is_space (CHR 0x27)" "\<not> is_space (CHR 0x22)"
  by (simp_all add: is_space_def)

lemma list_all_weaken: "list_all p xs \<Longrightarrow> (\<And>c. p c \<Longrightarrow> q c) \<Longrightarrow> list_all q xs"
  by (auto simp: list_all_iff)

lemma clean_cell_layered:
  assumes "layered s"
  shows "clean_cell s = spec_stripped s"
proof -
  obtain ws1 sq1 dq1 core dq2 sq2 ws2 where
    s: "s = ws1 @ sq1 @ dq1 @ core @ dq2 @ sq2 @ ws2"
    and ws: "list_all is_space ws1" "list_all is_space ws2"
    and sq: "list_all (\<lambda>c. c = CHR 0x27) sq1" "list_all (\<lambda>c. c = CHR 0x27) sq2"
    and dq: "list_all (\<lambda>c. c = CHR 0x22) dq1" "list_all (\<lambda>c. c = CHR 0x22) dq2"
    and core: "core = [] \<or> (\<not> surrounding (hd core) \<and> \<not> surrounding (last core))"
    using assms unfolding layered_def by blast
  let ?m2 = "dq1 @ core @ dq2"
  let ?m1 = "sq1 @ ?m2 @ sq2"
  have c3: "core = [] \<or> (\<not> (hd core = CHR 0x22) \<and> \<not> (last core = CHR 0x22))"
    using core by (auto simp: surrounding_def)
  have c2: "core = [] \<or> ((\<not> is_space (hd core) \<and> hd core \<noteq> CHR 0x27)
                          \<and> (\<not> is_space (last core) \<and> last core \<noteq> CHR 0x27))"
    using core by (auto simp: surrounding_def)
  have e2: "?m2 = [] \<or> ((\<not> is_space (hd ?m2) \<and> hd ?m2 \<noteq> CHR 0x27)
                          \<and> (\<not> is_space (last ?m2) \<and> last ?m2 \<noteq> CHR 0x27))"
    using layer_ends[where r="\<lambda>c. \<not> is_space c \<and> c \<noteq> CHR 0x27", OF dq c2] by simp
  then have e2': "?m2 = [] \<or> (\<not> (hd ?m2 = CHR 0x27) \<and> \<not> (last ?m2 = CHR 0x27))"
    and e2s: "?m2 = [] \<or> (\<not> is_space (hd ?m2) \<and> \<not> is_space (last ?m2))"
    by blast+
  have e1: "?m1 = [] \<or> (\<not> is_space (hd ?m1) \<and> \<not> is_space (last ?m1))"
    using layer_ends[where r="\<lambda>c. \<not> is_space c", OF sq e2s] by simp
  have s1: "strip s = sq1 @ dq1 @ core @ dq2 @ sq2"
    using strip_layer[OF ws e1] by (simp add: strip_def s)
  have s2: "strip_chars (\<lambda>c. c = CHR 0x27) (sq1 @ dq1 @ core @ dq2 @ sq2) = dq1 @ core @ dq2"
    using strip_layer[OF sq e2'] by simp
  have s3: "strip_chars (\<lambda>c. c = CHR 0x22) (dq1 @ core @ dq2) = core"
    using strip_layer[OF dq c3] by simp
  have cl: "clean_cell s = core"
  proof (cases "s = []")
    case True
    then show ?thesis using s by (simp add: clean_cell_def)
  next
    case False
    then show ?thesis by (simp add: clean_cell_def s1 s2 s3)
  qed
  have pre: "list_all surrounding (ws1 @ sq1 @ dq1)"
    using ws(1) sq(1) dq(1) by (auto simp: list_all_iff surrounding_def)
  have suf: "list_all surrounding (dq2 @ sq2 @ ws2)"
    using ws(2) sq(2) dq(2) by (auto simp: list_all_iff surrounding_def)
  have "strip_chars surrounding ((ws1 @ sq1 @ dq1) @ core @ (dq2 @ sq2 @ ws2)) = core"
    using pre suf core by (rule strip_layer)
  then have "spec_stripped s = core"
    by (simp add: spec_stripped_def strip_chars_def s)
  with cl show ?thesis by simp
qed

lemma clean_cell_decomp:
  "\<exists>pre suf. s = pre @ clean_cell s @ suf \<and> list_all surrounding pre \<and> list_all surrounding suf"
proof (cases "s = []")
  case True
  then show ?thesis by (simp add: clean_cell_def)
next
  case False
  obtain p1 q1 where 1: "s = p1 @ strip s @ q1" "list_all is_space p1" "list_all is_space q1"
    using strip_chars_decomp[of s is_space] unfolding strip_def by blast
  obtain p2 q2 where 2: "strip s = p2 @ strip_chars (\<lambda>c. c = CHR 0x27) (strip s) @ q2"
      "list_all (\<lambda>c. c = CHR 0x27) p2" "list_all (\<lambda>c. c = CHR 0x27) q2"
    using strip_chars_decomp[of "strip s" "\<lambda>c. c = CHR 0x27"] by blast
  obtain p3 q3 where 3: "strip_chars (\<lambda>c. c = CHR 0x27) (strip s)
        = p3 @ strip_chars (\<lambda>c. c = CHR 0x22) (strip_chars (\<lambda>c. c = CHR 0x27) (strip s)) @ q3"
      "list_all (\<lambda>c. c = CHR 0x22) p3" "list_all (\<lambda>c. c = CHR 0x22) q3"
    using strip_chars_decomp[of "strip_chars (\<lambda>c. c = CHR 0x27) (strip s)" "\<lambda>c. c = CHR 0x22"]
    by blast
  have c: "clean_cell s = strip_chars (\<lambda>c. c = CHR 0x22) (strip_chars (\<lambda>c. c = CHR 0x27) (strip s))"
    using False by (simp add: clean_cell_def)
  have e: "s = (p1 @ p2 @ p3) @ clean_cell s @ (q3 @ q2 @ q1)"
    using 1(1) 2(1) 3(1) c by (metis append.assoc)
  have pre: "list_all surrounding (p1 @ p2 @ p3)"
    using 1(2) 2(2) 3(2) by (auto simp: list_all_iff surrounding_def)
  have suf: "list_all surrounding (q3 @ q2 @ q1)"
    using 1(3) 2(3) 3(3) by (auto simp: list_all_iff surrounding_def)
  show ?thesis using e pre suf by blast
qed

lemma clean_cell_cleaned: "cell_cleaned c (clean_cell c)"
  using clean_cell_decomp[of c] clean_cell_layered[of c]
  by (simp add: cell_cleaned_def)

lemma rows_cleaned:
  "list_all2 (list_all2 cell_cleaned) rows (map (map clean_cell) rows)"
  by (simp add: list_all2_map2 list_all2_same clean_cell_cleaned)

text \<open>
  C3 (amended): for an input file with a header and \<open>R\<close> data rows and a chunk size
  \<open>C > 0\<close>, \<open>split_csv\<close> writes one file when \<open>R = 0\<close> and the ceiling of \<open>R / C\<close>
  files otherwise, named part 1, part 2, ... in order; each holds the header and at most
  \<open>C\<close> data rows; and the data rows of the files, one file after the other, are the
  data rows of the input in their order, cell for cell, every cell having lost only
  surrounding whitespace and quote characters, and all of them when the cell is layered.
\<close>

theorem split_csv_chunks:
  assumes "files w input_file = Some (header # rows)" and "0 < chunk_size"
  shows "\<exists>written.
           split_csv input_file output_prefix chunk_size w
             = (Inr (length written), foldl (\<lambda>w' f. write_file (fst f) (snd f) w') w written)
         \<and> length written
             = (if rows = [] then 1 else (length rows + nat chunk_size - 1) div nat chunk_size)
         \<and> map fst written = map (part_name output_prefix) [1 ..< length written + 1]
         \<and> list_all (\<lambda>f. \<exists>chunk. snd f = header # chunk \<and> length chunk \<le> nat chunk_size)
              written
         \<and> list_all2 (list_all2 cell_cleaned) rows (concat (map (\<lambda>f. tl (snd f)) written))"
proof -
  obtain written where
    1: "split_csv input_file output_prefix chunk_size w
          = (Inr (length written), foldl (\<lambda>w' f. write_file (fst f) (snd f) w') w written)"
    and 2: "length written
          = (if rows = [] then 1 else (length rows + nat chunk_size - 1) div nat chunk_size)"
    and 3: "map fst written = map (part_name output_prefix) [1 ..< length written + 1]"
    and 4: "list_all (\<lambda>f. \<exists>chunk. snd f = header # chunk \<and> length chunk \<le> nat chunk_size)
              written"
    and 5: "concat (map (\<lambda>f. tl (snd f)) written) = map (map clean_cell) rows"
    using split_csv_files[OF assms, of output_prefix] by blast
  have 6: "list_all2 (list_all2 cell_cleaned) rows (concat (map (\<lambda>f. tl (snd f)) written))"
    unfolding 5 by (rule rows_cleaned)
  show ?thesis
    using 1 2 3 4 6 by blast
qed

theorem split_csv_chunks_witness:
  "files three_rows_world ''export.csv''
     = Some ([''External_ID''] # [['' 1001 ''], [''1002''], [''1003'']])
   \<and> (0 :: int) < 2
   \<and> (\<exists>written.
           split_csv ''export.csv'' ''chunk'' 2 three_rows_world
             = (Inr (length written),
                foldl (\<lambda>w' f. write_file (fst f) (snd f) w') three_rows_world written)
         \<and> length written
             = (if [['' 1001 ''], [''1002''], [''1003'']] = [] then 1
                else (length [['' 1001 ''], [''1002''], [''1003'']] + nat 2 - 1) div nat 2)
         \<and> map fst written = map (part_name ''chunk'') [1 ..< length written + 1]
         \<and> list_all (\<lambda>f. \<exists>chunk. snd f = [''External_ID''] # chunk \<and> length chunk \<le> nat 2)
              written
         \<and> list_all2 (list_all2 cell_cleaned) [['' 1001 ''], [''1002''], [''1003'']]
              (concat (map (\<lambda>f. tl (snd f)) written)))"
proof -
  have h1: "files three_rows_world ''export.csv''
     = Some ([''External_ID''] # [['' 1001 ''], [''1002''], [''1003'']])"
    by (simp add: three_rows_world_def)
  have h2: "(0 :: int) < 2"
    by simp
  show ?thesis
    using h1 h2 split_csv_chunks[OF h1 h2, of "''chunk''"]
    by blast
qed

text \<open>The files of that input, and a layered cell: the padded \<^verbatim>\<open> 1001 \<close> comes out bare.\<close>

lemma split_three_rows:
  "split_table ''chunk'' 2 [[''External_ID''], ['' 1001 ''], [''1002''], [''1003'']]
     = Inr [(''chunk_part1.csv'', [[''External_ID''], [''1001''], [''1002'']]),
            (''chunk_part2.csv'', [[''External_ID''], [''1003'']])]"
  by code_simp

lemma padded_cell_layered: "layered '' 1001 ''"
  unfolding layered_def
  by (rule exI[of _ "'' ''"], rule exI[of _ "[]"], rule exI[of _ "[]"], rule exI[of _ "''1001''"],
      rule exI[of _ "[]"], rule exI[of _ "[]"], rule exI[of _ "'' ''"])
     (simp add: is_space_def surrounding_def)

text \<open>A header-only input, and a cell with padded text inside single quotes.\<close>

lemma header_only_makes_one_file:
  "fst (split_csv ''export.csv'' ''chunk'' 10 header_only_world) = Inr 1
   \<and> fst (split_csv ''export.csv'' ''chunk'' 10 header_only_world)
       \<noteq> Inr ((length ([] :: table) + 10 - 1) div 10)"
  by (simp add: split_csv_def split_table_def header_only_world_def Let_def)

lemma clean_cell_keeps_inner_space:
  "clean_cell ([CHR 0x27] @ '' a '' @ [CHR 0x27]) = '' a ''
   \<and> spec_stripped ([CHR 0x27] @ '' a '' @ [CHR 0x27]) = ''a''"
  by (simp add: clean_cell_def strip_def strip_chars_def is_space_def spec_stripped_def
        surrounding_def)

lemma quoted_cell_written_padded:
  "split_table ''chunk'' 10 [[''External_ID''], [[CHR 0x27] @ '' a '' @ [CHR 0x27]]]
     = Inr [(''chunk_part1.csv'', [[''External_ID''], ['' a '']])]"
  by code_simp

text \<open>
  C3 as stated fails for \<open>R = 0\<close>: the first output file is opened before any row is
  read, so a header-only input makes one file, not the ceiling of \<open>0 / C\<close>, which is 0.
  It also fails on the cell \<^verbatim>\<open>' a '\<close>: the three strips run once each, whitespace
  first, so the cell is written as \<^verbatim>\<open> a \<close>, still surrounded by whitespace, where the
  cleaning of the spec gives \<^verbatim>\<open>a\<close>.
\<close>

theorem header_only_and_quoted_padded_cell:
  "fst (split_csv ''export.csv'' ''chunk'' 10 header_only_world) = Inr 1
   \<and> fst (split_csv ''export.csv'' ''chunk'' 10 header_only_world)
       \<noteq> Inr ((length ([] :: table) + 10 - 1) div 10)
   \<and> split_table ''chunk'' 10 [[''External_ID''], [[CHR 0x27] @ '' a '' @ [CHR 0x27]]]
       = Inr [(''chunk_part1.csv'', [[''External_ID''], ['' a '']])]
   \<and> spec_stripped ([CHR 0x27] @ '' a '' @ [CHR 0x27]) = ''a''"
  using header_only_makes_one_file clean_cell_keeps_inner_space quoted_cell_written_padded
  by blast

section \<open>The resend after "ToModifyIdentities is empty."\<close>

text \<open>
  The recursive call of line 90 is inside the loop over the identity changes: a payload
  with two identity changes is resent twice, the old value of the phone cleared from the
  second resend on; a payload with none is not resent at all, and the 400 response is returned.
\<close>

lemma resend_once_per_identity_change:
  "post_count (snd (retryable_post 6
       (replay [Response empty_response, Response ok_response, Response ok_response])
       IDENTITY_BASE_URL None two_changes_payload False empty_world)) = 3
   \<and> fst (retryable_post 6
       (replay [Response empty_response, Response ok_response, Response ok_response])
       IDENTITY_BASE_URL None two_changes_payload False empty_world)
     = Return ((Some ok_response, 1, Some ''Status 200: OK''),
         [(''environment'', JStr ''production''),
          (''identity_changes'',
           JArr [JObj [(''old_value'', JStr ''a@example.com''), (''new_value'', JNull),
                       (''identity_type'', JStr ''email'')],
                 JObj [(''old_value'', JNull), (''new_value'', JNull),
                       (''identity_type'', JStr ''mobile_number'')]])])"
  by code_simp

lemma no_resend_without_identity_change:
  "fst (retryable_post 6 (replay [Response empty_response, Response ok_response])
       IDENTITY_BASE_URL None empty_modify_payload False empty_world)
     = Return ((Some empty_response, 1, Some ''Status 400: nothing to modify''),
               empty_modify_payload)
   \<and> post_count (snd (retryable_post 6 (replay [Response empty_response, Response ok_response])
       IDENTITY_BASE_URL None empty_modify_payload False empty_world)) = 1"
  by code_simp

section \<open>A 400 response whose body is not JSON\<close>

text \<open>
  \<^verbatim>\<open>resp.json()\<close> is called inside the \<^verbatim>\<open>try\<close>: on a 400 response whose text is not
  JSON the decoding error is caught like a network failure, and the request is sent again
  until the retries are used up.
\<close>

lemma undecodable_400_is_retried:
  "fst (retryable_post 6
       (replay [Response plain_400_response, Response plain_400_response,
                Response plain_400_response])
       IDENTITY_BASE_URL None empty_modify_payload False empty_world)
     = Return ((None, 3, Some ''Expecting value: line 1 column 1 (char 0)''),
               empty_modify_payload)
   \<and> post_count (snd (retryable_post 6
       (replay [Response plain_400_response, Response plain_400_response,
                Response plain_400_response])
       IDENTITY_BASE_URL None empty_modify_payload False empty_world)) = 3"
  by code_simp

end
